theory Spec2Isabelle
  imports Complex_Main "HOL-Library.Multiset" "HOL-Library.Log_Nat"
begin

section \<open>Python values\<close>

text \<open>
  Block ids are the integers of the \<open>id\<close> column. A Python dictionary is a partial map;
  reading a missing key raises \<open>KeyError\<close>.
\<close>

type_synonym block_id = int

datatype py_error = KeyError | ValueError | ZeroDivisionError | IndexError | OverflowError

subsection \<open>Floats\<close>

text \<open>
  A Python float is an IEEE 754 binary64 value: a finite number, an infinity or a NaN. A
  finite float is kept as the real number it denotes. The sign of a zero is not kept: no
  operation of the program tells \<open>-0.0\<close> from \<open>0.0\<close> (a division by either raises, and
  comparisons treat them as equal).
\<close>

datatype pyfloat = Fin real | PInf | NInf | NaN

text \<open>Rounding to the nearest integer, a tie going to the even neighbour.\<close>

definition round_half_even :: "real \<Rightarrow> int" where
  "round_half_even r =
     (let f = \<lfloor>r\<rfloor>; d = r - of_int f
      in if d < 1 / 2 then f else if 1 / 2 < d then f + 1 else if even f then f else f + 1)"

text \<open>The smallest positive float is \<open>2 ^ - 1074\<close>.\<close>

definition e_min :: nat where
  "e_min = 1074"

text \<open>
  Rounding a non-negative real to the nearest float, ties to even: \<open>s\<close> is the value in
  units of the smallest positive float, and \<open>sh\<close> is the number of bits of its integer part
  beyond the 53 that a float keeps (none for subnormal values and for the first binade of
  normal ones).
\<close>

definition arredondar :: "real \<Rightarrow> real" where
  "arredondar a =
     (let s = a * 2 ^ e_min;
          sh = floorlog 2 (nat \<lfloor>s\<rfloor>) - 53
      in of_int (round_half_even (s / 2 ^ sh)) * 2 ^ sh / 2 ^ e_min)"

text \<open>
  The largest float is \<open>2 ^ 1024 - 2 ^ 971\<close>; a real at or above the midpoint between it
  and \<open>2 ^ 1024\<close> rounds out of range.
\<close>

definition limiar_overflow :: real where
  "limiar_overflow = 2 ^ 1024 - 2 ^ 970"

text \<open>
  The float nearest to a real number: the value of a decimal literal, and the result of
  each arithmetic operation on the exact result.
\<close>

definition py_float :: "real \<Rightarrow> pyfloat" where
  "py_float x =
     (if limiar_overflow \<le> x then PInf
      else if x \<le> - limiar_overflow then NInf
      else if 0 \<le> x then Fin (arredondar x)
      else Fin (- arredondar (- x)))"

text \<open>\<open>x + y\<close> and \<open>x * y\<close> on floats never raise.\<close>

fun float_add :: "pyfloat \<Rightarrow> pyfloat \<Rightarrow> pyfloat" where
  "float_add NaN y = NaN"
| "float_add x NaN = NaN"
| "float_add PInf NInf = NaN"
| "float_add NInf PInf = NaN"
| "float_add PInf y = PInf"
| "float_add x PInf = PInf"
| "float_add NInf y = NInf"
| "float_add x NInf = NInf"
| "float_add (Fin a) (Fin b) = py_float (a + b)"

fun float_mul :: "pyfloat \<Rightarrow> pyfloat \<Rightarrow> pyfloat" where
  "float_mul NaN y = NaN"
| "float_mul x NaN = NaN"
| "float_mul PInf PInf = PInf"
| "float_mul PInf NInf = NInf"
| "float_mul NInf PInf = NInf"
| "float_mul NInf NInf = PInf"
| "float_mul PInf (Fin b) = (if b = 0 then NaN else if 0 < b then PInf else NInf)"
| "float_mul NInf (Fin b) = (if b = 0 then NaN else if 0 < b then NInf else PInf)"
| "float_mul (Fin a) PInf = (if a = 0 then NaN else if 0 < a then PInf else NInf)"
| "float_mul (Fin a) NInf = (if a = 0 then NaN else if 0 < a then NInf else PInf)"
| "float_mul (Fin a) (Fin b) = py_float (a * b)"

text \<open>\<open>x / y\<close>: a zero divisor raises \<open>ZeroDivisionError\<close>, whatever the dividend.\<close>

fun quociente :: "pyfloat \<Rightarrow> pyfloat \<Rightarrow> pyfloat" where
  "quociente NaN y = NaN"
| "quociente x NaN = NaN"
| "quociente PInf (Fin b) = (if 0 < b then PInf else NInf)"
| "quociente NInf (Fin b) = (if 0 < b then NInf else PInf)"
| "quociente (Fin a) (Fin b) = py_float (a / b)"
| "quociente (Fin a) y = Fin 0"
| "quociente x y = NaN"

definition float_truediv :: "pyfloat \<Rightarrow> pyfloat \<Rightarrow> py_error + pyfloat" where
  "float_truediv x y = (if y = Fin 0 then Inl ZeroDivisionError else Inr (quociente x y))"

text \<open>
  \<open>x ** k\<close> for a float \<open>x\<close> and an integer \<open>k\<close> that is not negative: \<open>x ** 0\<close> is 1 for
  every \<open>x\<close>; a NaN or an infinity gives a NaN or an infinity; otherwise the result is the
  float nearest to the power (the C library's \<open>pow\<close> may differ from it in the last bit),
  and a power that rounds out of range raises \<open>OverflowError\<close>. A power too small for a
  float is 0, without an error.
\<close>

definition float_pow :: "pyfloat \<Rightarrow> nat \<Rightarrow> py_error + pyfloat" where
  "float_pow x k =
     (if k = 0 then Inr (Fin 1)
      else (case x of
              NaN \<Rightarrow> Inr NaN
            | PInf \<Rightarrow> Inr PInf
            | NInf \<Rightarrow> Inr (if odd k then NInf else PInf)
            | Fin a \<Rightarrow>
                if limiar_overflow \<le> \<bar>a ^ k\<bar> then Inl OverflowError
                else Inr (py_float (a ^ k))))"

text \<open>\<open>x > y\<close> and \<open>x <= y\<close>: false whenever a NaN is involved.\<close>

fun float_gt :: "pyfloat \<Rightarrow> pyfloat \<Rightarrow> bool" where
  "float_gt NaN y = False"
| "float_gt x NaN = False"
| "float_gt (Fin a) (Fin b) = (b < a)"
| "float_gt PInf PInf = False"
| "float_gt PInf y = True"
| "float_gt x PInf = False"
| "float_gt NInf y = False"
| "float_gt x NInf = True"



section \<open>Data model\<close>

text \<open>
  The loaded instance (class \<open>MineLibCPIT\<close>) is the list of ids and five dictionaries keyed
  by id. The tonnage and the ore value of a block are numeric cells, which the evaluator
  reads through \<open>float(...)\<close>; the dictionaries hold them as floats.
\<close>

record instancia =
  ids :: "block_id list"
  tonn_dict :: "block_id \<rightharpoonup> pyfloat"
  dest_dict :: "block_id \<rightharpoonup> int"
  val_ore_dict :: "block_id \<rightharpoonup> pyfloat"
  preds_dict :: "block_id \<rightharpoonup> block_id list"
  succs_dict :: "block_id \<rightharpoonup> block_id list"

section \<open>Economic evaluation: \<open>calcular_vpl\<close>\<close>

text \<open>The four local variables of \<open>calcular_vpl\<close> that the loop updates.\<close>

record vpl_state =
  ano :: nat
  ton_acumulada :: pyfloat
  valor_total :: pyfloat
  visitados :: "block_id set"

definition vpl_init :: vpl_state where
  "vpl_init = \<lparr>ano = 1, ton_acumulada = Fin 0, valor_total = Fin 0, visitados = {}\<rparr>"

text \<open>
  \<open>cash / ((1 + taxa_desconto) ** (ano - 1))\<close> for the period \<open>ano\<close>: the power raises \<open>OverflowError\<close> when it
  leaves the float range, and the division raises \<open>ZeroDivisionError\<close> on a zero factor.
\<close>

definition valor_descontado :: "pyfloat \<Rightarrow> pyfloat \<Rightarrow> nat \<Rightarrow> py_error + pyfloat" where
  "valor_descontado cash taxa_desconto periodo =
     (case float_pow (float_add (Fin 1) taxa_desconto) (periodo - 1) of
        Inl e \<Rightarrow> Inl e
      | Inr fator \<Rightarrow> float_truediv cash fator)"

text \<open>
  One iteration of the loop body for block \<open>b\<close>. The lookups happen in the order of the
  source. The capacity is a float, or an integer (as the default \<open>10_000_000\<close>), which
  Python compares with a float exactly: \<open>Fin c\<close> stands for the integer \<open>c\<close>. After a
  rollover the accumulator is the integer 0, and \<open>ton_acumulada += ton\<close> adds the float to it.
\<close>

definition vpl_step ::
  "instancia \<Rightarrow> pyfloat \<Rightarrow> pyfloat \<Rightarrow> vpl_state \<Rightarrow> block_id \<Rightarrow> py_error + vpl_state" where
  "vpl_step inst taxa_desconto capacidade st b =
     (case preds_dict inst b of
        None \<Rightarrow> Inl KeyError
      | Some preds \<Rightarrow>
          if list_all (\<lambda>p. p \<in> visitados st) preds then
            (case dest_dict inst b of
               None \<Rightarrow> Inl KeyError
             | Some dest \<Rightarrow>
            (case tonn_dict inst b of
               None \<Rightarrow> Inl KeyError
             | Some ton \<Rightarrow>
            (case val_ore_dict inst b of
               None \<Rightarrow> Inl KeyError
             | Some val \<Rightarrow>
                 let cash = (if dest = 1 then float_add (float_mul (Fin (- 0.75)) ton) val
                             else float_mul (Fin (- 0.75)) ton);
                     rollover = (dest = 1
                                 \<and> float_gt (float_add (ton_acumulada st) ton) capacidade);
                     ano' = (if rollover then ano st + 1 else ano st);
                     ton' = (if dest = 1
                             then float_add (if rollover then Fin 0 else ton_acumulada st) ton
                             else ton_acumulada st)
                 in (case valor_descontado cash taxa_desconto ano' of
                       Inl e \<Rightarrow> Inl e
                     | Inr q \<Rightarrow>
                         Inr \<lparr>ano = ano', ton_acumulada = ton',
                              valor_total = float_add (valor_total st) q,
                              visitados = insert b (visitados st)\<rparr>))))
          else Inr st)"

fun vpl_loop ::
  "instancia \<Rightarrow> pyfloat \<Rightarrow> pyfloat \<Rightarrow> block_id list \<Rightarrow> vpl_state \<Rightarrow> py_error + vpl_state" where
  "vpl_loop inst taxa_desconto capacidade [] st = Inr st"
| "vpl_loop inst taxa_desconto capacidade (b # bs) st =
     (case vpl_step inst taxa_desconto capacidade st b of
        Inl e \<Rightarrow> Inl e
      | Inr st' \<Rightarrow> vpl_loop inst taxa_desconto capacidade bs st')"

definition calcular_vpl ::
  "instancia \<Rightarrow> block_id list \<Rightarrow> pyfloat \<Rightarrow> pyfloat \<Rightarrow> py_error + pyfloat" where
  "calcular_vpl inst solucao taxa_desconto capacidade =
     (case vpl_loop inst taxa_desconto capacidade solucao vpl_init of
        Inl e \<Rightarrow> Inl e
      | Inr st \<Rightarrow> Inr (valor_total st))"

text \<open>
  The default arguments of \<open>calcular_vpl\<close>, with which the baseline and the genetic
  algorithm call it: the float written \<open>0.15\<close> and the integer \<open>10_000_000\<close>.
\<close>

definition taxa_padrao :: pyfloat where
  "taxa_padrao = py_float 0.15"

definition capacidade_padrao :: pyfloat where
  "capacidade_padrao = Fin 10000000"

section \<open>Feasibility check and repair\<close>

text \<open>
  \<open>verificar_factibilidade\<close>: one pass with a growing visited set; returns \<open>False\<close> at
  the first block with a predecessor that is not yet visited.
\<close>

fun verificar_loop :: "instancia \<Rightarrow> block_id list \<Rightarrow> block_id set \<Rightarrow> py_error + bool" where
  "verificar_loop inst [] vis = Inr True"
| "verificar_loop inst (b # bs) vis =
     (case preds_dict inst b of
        None \<Rightarrow> Inl KeyError
      | Some preds \<Rightarrow>
          if list_ex (\<lambda>pred. pred \<notin> vis) preds then Inr False
          else verificar_loop inst bs (insert b vis))"

definition verificar_factibilidade :: "instancia \<Rightarrow> block_id list \<Rightarrow> py_error + bool" where
  "verificar_factibilidade inst solucao = verificar_loop inst solucao {}"

text \<open>
  \<open>reparar_solucao\<close>: the state is the pair (\<open>solucao_corrigida\<close>, \<open>visitados\<close>).
  \<open>reparar_preds\<close> is the inner loop over the predecessors of one block.
\<close>

fun reparar_preds ::
  "block_id list \<Rightarrow> block_id list \<times> block_id set \<Rightarrow> block_id list \<times> block_id set" where
  "reparar_preds [] (sc, vis) = (sc, vis)"
| "reparar_preds (p # ps) (sc, vis) =
     (if p \<notin> vis then reparar_preds ps (sc @ [p], insert p vis)
      else reparar_preds ps (sc, vis))"

fun reparar_loop ::
  "instancia \<Rightarrow> block_id list \<Rightarrow> block_id list \<times> block_id set \<Rightarrow>
   py_error + block_id list \<times> block_id set" where
  "reparar_loop inst [] st = Inr st"
| "reparar_loop inst (b # bs) st =
     (case preds_dict inst b of
        None \<Rightarrow> Inl KeyError
      | Some preds \<Rightarrow>
          (case reparar_preds preds st of
             (sc, vis) \<Rightarrow>
               reparar_loop inst bs
                 (if b \<notin> vis then (sc @ [b], insert b vis) else (sc, vis))))"

definition reparar_solucao :: "instancia \<Rightarrow> block_id list \<Rightarrow> py_error + block_id list" where
  "reparar_solucao inst solucao =
     (case reparar_loop inst solucao ([], {}) of
        Inl e \<Rightarrow> Inl e
      | Inr (sc, vis) \<Rightarrow> Inr sc)"

text \<open>
  What the constructor of \<open>MineLibCPIT\<close> establishes when it returns: every id has an
  entry in each dictionary, every listed predecessor is an id (otherwise
  \<open>_calcular_sucessores\<close> raises \<open>KeyError\<close>), and \<open>succs_dict\<close> is the inverse of
  \<open>preds_dict\<close>.
\<close>

definition preds_of :: "instancia \<Rightarrow> block_id \<Rightarrow> block_id list" where
  "preds_of inst b = (case preds_dict inst b of None \<Rightarrow> [] | Some ps \<Rightarrow> ps)"

definition inst_ok :: "instancia \<Rightarrow> bool" where
  "inst_ok inst \<longleftrightarrow>
     list_all (\<lambda>b.
        (case preds_dict inst b of
           None \<Rightarrow> False
         | Some ps \<Rightarrow> list_all (\<lambda>p. p \<in> set (ids inst)) ps)
        \<and> (case succs_dict inst b of
             None \<Rightarrow> False
           | Some ss \<Rightarrow> set ss = set (filter (\<lambda>c. b \<in> set (preds_of inst c)) (ids inst)))
        \<and> tonn_dict inst b \<noteq> None \<and> dest_dict inst b \<noteq> None \<and> val_ore_dict inst b \<noteq> None)
       (ids inst)"

text \<open>A solution: every id of the model exactly once.\<close>

definition permutacao :: "instancia \<Rightarrow> block_id list \<Rightarrow> bool" where
  "permutacao inst s \<longleftrightarrow> distinct s \<and> set s = set (ids inst)"

text \<open>A chain of three blocks: 0 before 1 before 2.\<close>

definition cadeia3 :: instancia where
  "cadeia3 =
     \<lparr>ids = [0, 1, 2],
      tonn_dict = map_of [(0, Fin 10), (1, Fin 10), (2, Fin 10)],
      dest_dict = map_of [(0, 1), (1, 1), (2, 1)],
      val_ore_dict = map_of [(0, Fin 5), (1, Fin 5), (2, Fin 5)],
      preds_dict = map_of [(0, []), (1, [0]), (2, [1])],
      succs_dict = map_of [(0, [1]), (1, [2]), (2, [])]\<rparr>"

text \<open>
  The four-block model of the worked example. The ore value of the waste block 1 is
  not given by the example (the evaluator reads it but never uses it), so it is a parameter.
\<close>

definition exemplo4 :: "pyfloat \<Rightarrow> instancia" where
  "exemplo4 v1 =
     \<lparr>ids = [0, 1, 2, 3],
      tonn_dict = map_of [(0, Fin 10), (1, Fin 10), (2, Fin 10), (3, Fin 5)],
      dest_dict = map_of [(0, 1), (1, 2), (2, 1), (3, 1)],
      val_ore_dict = map_of [(0, Fin 5), (1, v1), (2, Fin 8), (3, Fin 2)],
      preds_dict = map_of [(0, []), (1, [0]), (2, [0]), (3, [1, 2])],
      succs_dict = map_of [(0, [1, 2]), (1, [3]), (2, [3]), (3, [])]\<rparr>"

text \<open>Two ore blocks of tonnage 10 without predecessors (the capacity-rollover example).\<close>

definition exemplo2 :: instancia where
  "exemplo2 =
     \<lparr>ids = [0, 1],
      tonn_dict = map_of [(0, Fin 10), (1, Fin 10)],
      dest_dict = map_of [(0, 1), (1, 1)],
      val_ore_dict = map_of [(0, Fin 5), (1, Fin 8)],
      preds_dict = map_of [(0, []), (1, [])],
      succs_dict = map_of [(0, []), (1, [])]\<rparr>"

section \<open>The random source\<close>

text \<open>
  Every random draw of the program goes through the process-wide generator of Python's
  \<open>random\<close> module. The generator is library code; it is modelled as an arbitrary infinite
  sequence of raw outputs together with the position reached, and each library call
  consumes raw outputs. All results below hold for every such sequence.
\<close>

type_synonym rng = "(nat \<Rightarrow> nat) \<times> nat"

definition randbelow :: "nat \<Rightarrow> rng \<Rightarrow> nat \<times> rng" where
  "randbelow n g = (fst g (snd g) mod n, (fst g, Suc (snd g)))"

text \<open>\<open>random.choice(seq)\<close> is \<open>seq[randbelow(len(seq))]\<close> and raises on an empty list.\<close>

definition random_choice :: "'a list \<Rightarrow> rng \<Rightarrow> py_error + 'a \<times> rng" where
  "random_choice seq g =
     (if seq = [] then Inl IndexError
      else (case randbelow (length seq) g of (i, g') \<Rightarrow> Inr (seq ! i, g')))"

definition rng_zero :: rng where
  "rng_zero = ((\<lambda>k. 0), 0)"

definition rng_count :: rng where
  "rng_count = ((\<lambda>k. k), 0)"

section \<open>Baseline: \<open>baseline_toposort\<close>\<close>

text \<open>
  The keys of a dictionary built by a comprehension over a list, in insertion order
  (first occurrences).
\<close>

definition dict_keys :: "block_id list \<Rightarrow> block_id list" where
  "dict_keys xs = rev (remdups (rev xs))"

text \<open>\<open>preds_restantes = {b: set(preds_dict[b]) for b in ids}\<close>.\<close>

fun init_preds_restantes ::
  "instancia \<Rightarrow> block_id list \<Rightarrow> (block_id \<rightharpoonup> block_id set) \<Rightarrow>
   py_error + (block_id \<rightharpoonup> block_id set)" where
  "init_preds_restantes inst [] pr = Inr pr"
| "init_preds_restantes inst (b # bs) pr =
     (case preds_dict inst b of
        None \<Rightarrow> Inl KeyError
      | Some ps \<Rightarrow> init_preds_restantes inst bs (pr(b \<mapsto> set ps)))"

text \<open>\<open>for s in succs_dict[b]: preds_restantes[s].discard(b)\<close>.\<close>

fun discard_succs ::
  "block_id \<Rightarrow> block_id list \<Rightarrow> (block_id \<rightharpoonup> block_id set) \<Rightarrow>
   py_error + (block_id \<rightharpoonup> block_id set)" where
  "discard_succs b [] pr = Inr pr"
| "discard_succs b (s # ss) pr =
     (case pr s of
        None \<Rightarrow> Inl KeyError
      | Some ps \<Rightarrow> discard_succs b ss (pr(s \<mapsto> ps - {b})))"

text \<open>The \<open>while\<close> loop; each iteration either stops or makes \<open>ordem\<close> one longer.\<close>

function baseline_loop ::
  "instancia \<Rightarrow> block_id set \<Rightarrow> block_id list \<Rightarrow> (block_id \<rightharpoonup> block_id set) \<Rightarrow> rng \<Rightarrow>
   py_error + block_id list" where
  "baseline_loop inst vis ordem pr g =
     (if length ordem < length (ids inst) then
        (let livres = filter (\<lambda>b. (case pr b of None \<Rightarrow> False | Some ps \<Rightarrow> ps = {}) \<and> b \<notin> vis)
                        (dict_keys (ids inst))
         in if livres = [] then Inr ordem
            else (case random_choice livres g of
                    Inl e \<Rightarrow> Inl e
                  | Inr (b, g') \<Rightarrow>
                      (case succs_dict inst b of
                         None \<Rightarrow> Inl KeyError
                       | Some ss \<Rightarrow>
                           (case discard_succs b ss pr of
                              Inl e \<Rightarrow> Inl e
                            | Inr pr' \<Rightarrow>
                                baseline_loop inst (insert b vis) (ordem @ [b]) pr' g'))))
      else Inr ordem)"
  by pat_completeness auto
termination
  by (relation "measure (\<lambda>(inst, vis, ordem, pr, g). length (ids inst) - length ordem)") auto

declare baseline_loop.simps [simp del]

text \<open>
  The part of \<open>baseline_toposort\<close> that builds \<open>ordem\<close>: the dictionary of remaining
  predecessors and the \<open>while\<close> loop.
\<close>

definition baseline_ordem :: "instancia \<Rightarrow> rng \<Rightarrow> py_error + block_id list" where
  "baseline_ordem inst g =
     (case init_preds_restantes inst (ids inst) Map.empty of
        Inl e \<Rightarrow> Inl e
      | Inr pr \<Rightarrow> baseline_loop inst {} [] pr g)"

text \<open>\<open>return ordem, self.calcular_vpl(ordem)\<close>: the order is evaluated with the defaults.\<close>

definition baseline_toposort :: "instancia \<Rightarrow> rng \<Rightarrow> py_error + block_id list \<times> pyfloat" where
  "baseline_toposort inst g =
     (case baseline_ordem inst g of
        Inl e \<Rightarrow> Inl e
      | Inr ordem \<Rightarrow>
          (case calcular_vpl inst ordem taxa_padrao capacidade_padrao of
             Inl e \<Rightarrow> Inl e
           | Inr v \<Rightarrow> Inr (ordem, v)))"

text \<open>The precedence graph: an edge from each listed predecessor to its block.\<close>

definition prec_rel :: "instancia \<Rightarrow> (block_id \<times> block_id) set" where
  "prec_rel inst = {(p, b). b \<in> set (ids inst) \<and> p \<in> set (preds_of inst b)}"

text \<open>A model with a cycle between blocks 1 and 2; block 0 is free.\<close>

definition ciclo3 :: instancia where
  "ciclo3 =
     \<lparr>ids = [0, 1, 2],
      tonn_dict = map_of [(0, Fin 10), (1, Fin 10), (2, Fin 10)],
      dest_dict = map_of [(0, 1), (1, 1), (2, 1)],
      val_ore_dict = map_of [(0, Fin 5), (1, Fin 5), (2, Fin 5)],
      preds_dict = map_of [(0, []), (1, [2]), (2, [1])],
      succs_dict = map_of [(0, []), (1, [2]), (2, [1])]\<rparr>"

text \<open>
  The loop invariant of \<open>baseline_toposort\<close>: \<open>visitados\<close> is the set of \<open>ordem\<close>, which
  has no repetition, holds ids only and is feasible; the remaining predecessors of every
  id are its predecessors that are not placed yet.
\<close>

definition baseline_inv ::
  "instancia \<Rightarrow> block_id set \<Rightarrow> block_id list \<Rightarrow> (block_id \<rightharpoonup> block_id set) \<Rightarrow> bool" where
  "baseline_inv inst vis ordem pr \<longleftrightarrow>
     vis = set ordem \<and> distinct ordem \<and> set ordem \<subseteq> set (ids inst)
     \<and> (\<forall>b \<in> set (ids inst). pr b = Some (set (preds_of inst b) - vis))
     \<and> verificar_loop inst ordem {} = Inr True"


text \<open>
  \<open>n\<close> ore blocks without predecessors, numbered from 0, each of 20 million tonnes (twice
  the default capacity) and worth 30 million.
\<close>

definition pesados :: "nat \<Rightarrow> instancia" where
  "pesados n =
     \<lparr>ids = map int [0..<n],
      tonn_dict = (\<lambda>b. if 0 \<le> b \<and> b < int n then Some (Fin 20000000) else None),
      dest_dict = (\<lambda>b. if 0 \<le> b \<and> b < int n then Some 1 else None),
      val_ore_dict = (\<lambda>b. if 0 \<le> b \<and> b < int n then Some (Fin 30000000) else None),
      preds_dict = (\<lambda>b. if 0 \<le> b \<and> b < int n then Some [] else None),
      succs_dict = (\<lambda>b. if 0 \<le> b \<and> b < int n then Some [] else None)\<rparr>"

section \<open>Genetic algorithm\<close>




















text \<open>A model with a single block.\<close>

definition um_bloco :: instancia where
  "um_bloco =
     \<lparr>ids = [0],
      tonn_dict = map_of [(0, Fin 10)],
      dest_dict = map_of [(0, 1)],
      val_ore_dict = map_of [(0, Fin 5)],
      preds_dict = map_of [(0, [])],
      succs_dict = map_of [(0, [])]\<rparr>"


section \<open>Loading: the constructor of \<open>MineLibCPIT\<close>\<close>

text \<open>
  The table read from the CSV file: each of the eight known columns is absent or holds
  one value per row. A cell of \<open>tonn\<close> or \<open>val_ore\<close> is held as the float that
  \<open>float(...)\<close> gives for it (a missing cell is a NaN). A cell of \<open>precedentes\<close> is a
  string still to be evaluated or an already structured list. The evaluation of a string
  by Python's \<open>eval\<close> is a parameter \<open>ev\<close> of the loader: it yields a list or raises.
\<close>

datatype prec_cell = PStr string | PList "block_id list"

record dataframe =
  col_id :: "block_id list option"
  col_x :: "real list option"
  col_y :: "real list option"
  col_z :: "real list option"
  col_tonn :: "pyfloat list option"
  col_dest :: "int list option"
  col_val_ore :: "pyfloat list option"
  col_precedentes :: "prec_cell list option"

definition columns :: "dataframe \<Rightarrow> string set" where
  "columns df =
     (if col_id df = None then {} else {''id''})
     \<union> (if col_x df = None then {} else {''x''})
     \<union> (if col_y df = None then {} else {''y''})
     \<union> (if col_z df = None then {} else {''z''})
     \<union> (if col_tonn df = None then {} else {''tonn''})
     \<union> (if col_dest df = None then {} else {''dest''})
     \<union> (if col_val_ore df = None then {} else {''val_ore''})
     \<union> (if col_precedentes df = None then {} else {''precedentes''})"

text \<open>
  The class defines \<open>_validar_colunas\<close> twice; the second definition replaces the first,
  so only the five basic columns are required.
\<close>

definition validar_colunas :: "dataframe \<Rightarrow> py_error + unit" where
  "validar_colunas df =
     (let colunas_basicas = {''id'', ''x'', ''y'', ''z'', ''precedentes''};
          faltando = colunas_basicas - columns df
      in if faltando \<noteq> {} then Inl ValueError else Inr ())"

text \<open>\<open>self.df[name]\<close>: a missing column raises \<open>KeyError\<close>.\<close>

definition getitem :: "'a option \<Rightarrow> py_error + 'a" where
  "getitem col = (case col of None \<Rightarrow> Inl KeyError | Some c \<Rightarrow> Inr c)"

text \<open>\<open>dict(zip(keys, values))\<close>: a later pair replaces an earlier one with the same key.\<close>

definition dict_zip :: "'k list \<Rightarrow> 'v list \<Rightarrow> ('k \<rightharpoonup> 'v)" where
  "dict_zip ks vs = map_of (rev (zip ks vs))"

text \<open>The dictionary comprehension over the rows that builds \<open>preds_dict\<close>.\<close>

fun build_preds ::
  "(string \<Rightarrow> py_error + block_id list) \<Rightarrow> (block_id \<times> prec_cell) list \<Rightarrow>
   (block_id \<rightharpoonup> block_id list) \<Rightarrow> py_error + (block_id \<rightharpoonup> block_id list)" where
  "build_preds ev [] m = Inr m"
| "build_preds ev ((i, c) # rows) m =
     (case (case c of PStr s \<Rightarrow> ev s | PList l \<Rightarrow> Inr l) of
        Inl e \<Rightarrow> Inl e
      | Inr ps \<Rightarrow> build_preds ev rows (m(i \<mapsto> ps)))"

text \<open>\<open>_calcular_sucessores\<close>: \<open>for p in preds: succs[p].append(b)\<close> and the loop around it.\<close>

fun append_succs ::
  "block_id \<Rightarrow> block_id list \<Rightarrow> (block_id \<rightharpoonup> block_id list) \<Rightarrow>
   py_error + (block_id \<rightharpoonup> block_id list)" where
  "append_succs b [] succs = Inr succs"
| "append_succs b (p # ps) succs =
     (case succs p of
        None \<Rightarrow> Inl KeyError
      | Some l \<Rightarrow> append_succs b ps (succs(p \<mapsto> l @ [b])))"

fun succs_loop ::
  "(block_id \<times> block_id list) list \<Rightarrow> (block_id \<rightharpoonup> block_id list) \<Rightarrow>
   py_error + (block_id \<rightharpoonup> block_id list)" where
  "succs_loop [] succs = Inr succs"
| "succs_loop ((b, preds) # items) succs =
     (case append_succs b preds succs of
        Inl e \<Rightarrow> Inl e
      | Inr succs' \<Rightarrow> succs_loop items succs')"

text \<open>The items of a dictionary in insertion order, given the keys as they were inserted.\<close>

definition dict_items :: "block_id list \<Rightarrow> (block_id \<rightharpoonup> 'v) \<Rightarrow> (block_id \<times> 'v) list" where
  "dict_items inserted m =
     concat (map (\<lambda>k. case m k of None \<Rightarrow> [] | Some v \<Rightarrow> [(k, v)]) (dict_keys inserted))"

definition calcular_sucessores ::
  "block_id list \<Rightarrow> block_id list \<Rightarrow> (block_id \<rightharpoonup> block_id list) \<Rightarrow>
   py_error + (block_id \<rightharpoonup> block_id list)" where
  "calcular_sucessores ids_list row_ids preds =
     succs_loop (dict_items row_ids preds) (map_of (map (\<lambda>b. (b, [])) ids_list))"

text \<open>
  \<open>self.df.get(name, default)\<close>: the column when present, the default otherwise. The
  default for \<open>val_ore\<close> is computed from column \<open>z\<close> before the call.
\<close>

definition df_get :: "'a option \<Rightarrow> 'a \<Rightarrow> 'a" where
  "df_get col padrao = (case col of None \<Rightarrow> padrao | Some c \<Rightarrow> c)"

text \<open>
  \<open>_preparar_dados\<close>, statement by statement: the four dictionaries are read from the
  columns first, and the three fallback assignments come last.
\<close>

definition preparar_dados ::
  "(string \<Rightarrow> py_error + block_id list) \<Rightarrow> dataframe \<Rightarrow> py_error + instancia \<times> dataframe" where
  "preparar_dados ev df =
     (case getitem (col_id df) of Inl e \<Rightarrow> Inl e | Inr id_col \<Rightarrow>
      case getitem (col_tonn df) of Inl e \<Rightarrow> Inl e | Inr tonn_col \<Rightarrow>
      case getitem (col_dest df) of Inl e \<Rightarrow> Inl e | Inr dest_col \<Rightarrow>
      case getitem (col_val_ore df) of Inl e \<Rightarrow> Inl e | Inr val_col \<Rightarrow>
      case getitem (col_precedentes df) of Inl e \<Rightarrow> Inl e | Inr prec_col \<Rightarrow>
      case build_preds ev (zip id_col prec_col) Map.empty of Inl e \<Rightarrow> Inl e | Inr preds \<Rightarrow>
      case calcular_sucessores id_col (map fst (zip id_col prec_col)) preds of
        Inl e \<Rightarrow> Inl e
      | Inr succs \<Rightarrow>
      case getitem (col_z df) of Inl e \<Rightarrow> Inl e | Inr z_col \<Rightarrow>
        Inr (\<lparr>ids = id_col,
              tonn_dict = dict_zip id_col tonn_col,
              dest_dict = dict_zip id_col dest_col,
              val_ore_dict = dict_zip id_col val_col,
              preds_dict = preds,
              succs_dict = succs\<rparr>,
             df\<lparr>col_tonn := Some (df_get (col_tonn df) (replicate (length id_col) (Fin 100))),
                col_val_ore :=
                  Some (df_get (col_val_ore df)
                          (map (\<lambda>z. py_float ((Max (set z_col) - z) * 10)) z_col)),
                col_dest := Some (df_get (col_dest df) (replicate (length id_col) 1))\<rparr>))"

definition MineLibCPIT ::
  "(string \<Rightarrow> py_error + block_id list) \<Rightarrow> dataframe \<Rightarrow> py_error + instancia \<times> dataframe" where
  "MineLibCPIT ev df =
     (case validar_colunas df of
        Inl e \<Rightarrow> Inl e
      | Inr u \<Rightarrow> preparar_dados ev df)"

text \<open>A table with all eight columns and two rows, block 1 after block 0.\<close>

definition df_completo :: dataframe where
  "df_completo =
     \<lparr>col_id = Some [0, 1], col_x = Some [0, 0], col_y = Some [0, 0], col_z = Some [1, 0],
      col_tonn = Some [Fin 10, Fin 10], col_dest = Some [1, 1],
      col_val_ore = Some [Fin 5, Fin 8],
      col_precedentes = Some [PList [], PList [0]]\<rparr>"

text \<open>Every column has one value per row.\<close>

definition col_len_ok :: "nat \<Rightarrow> 'a list option \<Rightarrow> bool" where
  "col_len_ok n col = (case col of None \<Rightarrow> True | Some c \<Rightarrow> length c = n)"

definition retangular :: "dataframe \<Rightarrow> bool" where
  "retangular df \<longleftrightarrow>
     (let n = (case col_id df of None \<Rightarrow> 0 | Some c \<Rightarrow> length c)
      in col_len_ok n (col_x df) \<and> col_len_ok n (col_y df) \<and> col_len_ok n (col_z df)
         \<and> col_len_ok n (col_tonn df) \<and> col_len_ok n (col_dest df)
         \<and> col_len_ok n (col_val_ore df) \<and> col_len_ok n (col_precedentes df))"

text \<open>The successors recorded for a block, as a set (empty when the block has no entry).\<close>

definition succ_set :: "(block_id \<rightharpoonup> block_id list) \<Rightarrow> block_id \<Rightarrow> block_id set" where
  "succ_set S q = (case S q of None \<Rightarrow> {} | Some l \<Rightarrow> set l)"





section \<open>Properties of float rounding\<close>

lemma floorlog2_eqI:
  assumes "2 ^ w \<le> n" "n < 2 ^ Suc w"
  shows "floorlog 2 n = Suc w"
proof -
  have "Suc w \<le> floorlog 2 n"
    using assms(1) by (intro floorlog_ge_SucI) auto
  moreover have "floorlog 2 n \<le> Suc w"
    using assms(2) by (intro floorlog_leI) auto
  ultimately show ?thesis by simp
qed

lemma nat_floor_bounds:
  fixes s :: real
  assumes "2 ^ w \<le> s" "s < 2 ^ Suc w"
  shows "2 ^ w \<le> nat \<lfloor>s\<rfloor>" "nat \<lfloor>s\<rfloor> < 2 ^ Suc w"
proof -
  have s0: "0 \<le> s" using assms(1) by (meson order_trans zero_le_numeral zero_le_power)
  have "(2::int) ^ w \<le> \<lfloor>s\<rfloor>" using assms(1) by (simp add: le_floor_iff)
  then show "2 ^ w \<le> nat \<lfloor>s\<rfloor>"
    by (metis nat_mono nat_numeral nat_power_eq zero_le_numeral)
  have "\<lfloor>s\<rfloor> < (2::int) ^ Suc w" using assms(2) by (simp add: floor_less_iff)
  then show "nat \<lfloor>s\<rfloor> < 2 ^ Suc w"
    by (metis nat_less_iff nat_numeral nat_power_eq zero_le_floor s0 zero_le_numeral of_nat_numeral of_nat_power)
qed

lemma arredondar_shift:
  assumes "2 ^ 52 * 2 ^ j \<le> a * 2 ^ e_min" "a * 2 ^ e_min < 2 ^ 53 * 2 ^ j"
  shows "arredondar a = of_int (round_half_even (a * 2 ^ e_min / 2 ^ j)) * 2 ^ j / 2 ^ e_min"
proof -
  have a1: "(2::real) ^ (52 + j) \<le> a * 2 ^ e_min" using assms(1) by (simp add: power_add)
  have a2: "a * 2 ^ e_min < (2::real) ^ Suc (52 + j)" using assms(2) by (simp add: power_add)
  have "floorlog 2 (nat \<lfloor>a * 2 ^ e_min\<rfloor>) = Suc (52 + j)"
    using nat_floor_bounds[OF a1 a2] by (rule floorlog2_eqI)
  then show ?thesis by (simp add: arredondar_def Let_def)
qed

lemma arredondar_small:
  assumes "0 \<le> a" "a * 2 ^ e_min < 2 ^ 53"
  shows "arredondar a = of_int (round_half_even (a * 2 ^ e_min)) / 2 ^ e_min"
proof -
  have "\<lfloor>a * 2 ^ e_min\<rfloor> < (2::int) ^ 53" using assms(2) by (simp add: floor_less_iff)
  then have "nat \<lfloor>a * 2 ^ e_min\<rfloor> < nat (2 ^ 53)"
    using assms(1) by (intro nat_mono_iff[THEN iffD2]) simp_all
  then have "nat \<lfloor>a * 2 ^ e_min\<rfloor> < 2 ^ 53"
    by simp
  then have "floorlog 2 (nat \<lfloor>a * 2 ^ e_min\<rfloor>) \<le> 53"
    by (intro floorlog_leI) auto
  then show ?thesis by (simp add: arredondar_def Let_def)
qed

text \<open>A normal value below \<open>2 ^ 53\<close> keeps 53 bits: with \<open>k\<close> binary places.\<close>

lemma arredondar_lt:
  assumes "2 ^ 52 \<le> a * 2 ^ k" "a * 2 ^ k < 2 ^ 53" "k \<le> e_min"
  shows "arredondar a = of_int (round_half_even (a * 2 ^ k)) / 2 ^ k"
proof -
  obtain j where j: "e_min = k + j" using assms(3) le_Suc_ex by blast
  have e: "a * 2 ^ e_min = a * 2 ^ k * 2 ^ j" by (simp add: j power_add)
  have "arredondar a =
      of_int (round_half_even (a * 2 ^ e_min / 2 ^ j)) * 2 ^ j / 2 ^ e_min"
    using assms(1,2) by (intro arredondar_shift) (simp_all add: e)
  also have "a * 2 ^ e_min / 2 ^ j = a * 2 ^ k" by (simp add: e)
  also have "of_int (round_half_even (a * 2 ^ k)) * 2 ^ j / (2::real) ^ e_min
     = of_int (round_half_even (a * 2 ^ k)) / 2 ^ k"
    by (simp add: j power_add)
  finally show ?thesis .
qed

text \<open>A value of at least \<open>2 ^ 53\<close> keeps 53 bits: the last \<open>k\<close> bits of its integer part go.\<close>

lemma arredondar_ge:
  assumes "2 ^ 52 * 2 ^ k \<le> a" "a < 2 ^ 53 * 2 ^ k"
  shows "arredondar a = of_int (round_half_even (a / 2 ^ k)) * 2 ^ k"
proof -
  have "arredondar a =
      of_int (round_half_even (a * 2 ^ e_min / 2 ^ (k + e_min))) * 2 ^ (k + e_min) / 2 ^ e_min"
    using assms by (intro arredondar_shift) (simp_all add: power_add)
  then show ?thesis by (simp add: power_add)
qed

lemma round_half_even_ge:
  assumes "of_int n \<le> r"
  shows "n \<le> round_half_even r"
proof -
  have "n \<le> \<lfloor>r\<rfloor>" using assms by (simp add: le_floor_iff)
  then show ?thesis by (simp add: round_half_even_def Let_def)
qed

lemma arredondar_0: "arredondar 0 = 0"
  by (simp add: arredondar_def Let_def round_half_even_def floorlog_def)

text \<open>A real of at least \<open>2 ^ - 1074\<close> does not round to zero.\<close>

lemma arredondar_pos:
  assumes "1 \<le> a * 2 ^ e_min"
  shows "0 < arredondar a"
proof -
  define s where "s = a * 2 ^ e_min"
  define n where "n = nat \<lfloor>s\<rfloor>"
  define sh where "sh = floorlog 2 n - 53"
  have s1: "1 \<le> s" using assms by (simp add: s_def)
  have n1: "1 \<le> n" using s1 by (simp add: n_def le_nat_iff le_floor_iff)
  have ns: "real n \<le> s" using s1 by (simp add: n_def)
  have "1 \<le> s / 2 ^ sh"
  proof (cases "sh = 0")
    case True
    with s1 show ?thesis by simp
  next
    case False
    then have fl: "floorlog 2 n = 53 + sh" by (simp add: sh_def)
    from floorlog_bounds[of n 2] n1 have "2 ^ (floorlog 2 n - 1) \<le> n" by simp
    then have "2 ^ (52 + sh) \<le> n" by (simp add: fl)
    then have "(2::real) ^ (52 + sh) \<le> real n"
      by (metis of_nat_le_iff of_nat_numeral of_nat_power)
    with ns have "(2::real) ^ (52 + sh) \<le> s" by (rule order_trans[rotated])
    then have "(2::real) ^ 52 * 2 ^ sh \<le> s" by (simp add: power_add)
    then have "(2::real) ^ 52 \<le> s / 2 ^ sh" by (simp add: pos_le_divide_eq)
    moreover have "(1::real) \<le> 2 ^ 52" by simp
    ultimately show ?thesis by linarith
  qed
  then have "of_int 1 \<le> s / 2 ^ sh" by simp
  from round_half_even_ge[OF this] have "1 \<le> round_half_even (s / 2 ^ sh)" .
  then have "0 < real_of_int (round_half_even (s / 2 ^ sh))" by simp
  then have "0 < real_of_int (round_half_even (s / 2 ^ sh)) * 2 ^ sh / 2 ^ e_min" by simp
  then show ?thesis by (simp add: arredondar_def Let_def s_def n_def sh_def)
qed

lemma limiar_overflow_gt: "2 ^ 53 < limiar_overflow"
  by (simp add: limiar_overflow_def)

lemma limiar_overflow_eq: "limiar_overflow = (2 - 1 / 2 ^ 53) * 2 ^ 1023"
  by (simp add: limiar_overflow_def)

text \<open>
  Evaluating \<open>py_float\<close> at a given real: \<open>k\<close> is the number of binary places that bring
  it between \<open>2 ^ 52\<close> and \<open>2 ^ 53\<close>.
\<close>

lemma py_float_posI:
  assumes "2 ^ 52 \<le> x * 2 ^ k" "x * 2 ^ k < 2 ^ 53" "k \<le> e_min"
    and "of_int (round_half_even (x * 2 ^ k)) = y * 2 ^ k"
  shows "py_float x = Fin y"
proof -
  have p: "(0::real) < 2 ^ k" by simp
  have x0: "0 \<le> x"
  proof (rule ccontr)
    assume "\<not> 0 \<le> x"
    then have "x * 2 ^ k < 0" using p by (simp add: mult_less_0_iff)
    with assms(1) show False by (smt (verit) zero_le_power)
  qed
  have "x * 1 \<le> x * 2 ^ k" using x0 by (intro mult_left_mono) simp_all
  with assms(2) limiar_overflow_gt have lim: "x < limiar_overflow" by simp
  have "arredondar x = of_int (round_half_even (x * 2 ^ k)) / 2 ^ k"
    using assms(1-3) by (rule arredondar_lt)
  also have "\<dots> = y" using assms(4) by simp
  finally show ?thesis using x0 lim limiar_overflow_gt by (simp add: py_float_def)
qed

lemma py_float_negI:
  assumes "2 ^ 52 \<le> - x * 2 ^ k" "- x * 2 ^ k < 2 ^ 53" "k \<le> e_min"
    and "of_int (round_half_even (- x * 2 ^ k)) = - y * 2 ^ k"
  shows "py_float x = Fin y"
proof -
  have p: "(0::real) < 2 ^ k" by simp
  have x0: "x < 0"
  proof (rule ccontr)
    assume "\<not> x < 0"
    then have "- x * 2 ^ k \<le> 0" using p by (simp add: mult_le_0_iff)
    with assms(1) show False by (smt (verit) zero_less_power)
  qed
  have "- x * 1 \<le> - x * 2 ^ k" using x0 by (intro mult_left_mono) simp_all
  with assms(2) limiar_overflow_gt have lim: "- limiar_overflow < x" by simp
  have "arredondar (- x) = of_int (round_half_even (- x * 2 ^ k)) / 2 ^ k"
    using assms(1-3) by (rule arredondar_lt)
  also have "\<dots> = - y" using assms(4) by simp
  finally show ?thesis using x0 lim limiar_overflow_gt by (simp add: py_float_def)
qed

lemma py_float_bigI:
  assumes "2 ^ 52 * 2 ^ k \<le> x" "x < 2 ^ 53 * 2 ^ k" "x < limiar_overflow"
    and "of_int (round_half_even (x / 2 ^ k)) * 2 ^ k = y"
  shows "py_float x = Fin y"
proof -
  have "(0::real) \<le> 2 ^ 52 * 2 ^ k" by simp
  with assms(1) have x0: "0 \<le> x" by linarith
  have "arredondar x = y" using arredondar_ge[OF assms(1,2)] assms(4) by simp
  with x0 assms(3) show ?thesis by (simp add: py_float_def)
qed

lemma py_float_0: "py_float 0 = Fin 0"
  using limiar_overflow_gt by (simp add: py_float_def arredondar_0)

section \<open>The default discount base\<close>

lemma taxa_padrao_value: "taxa_padrao = Fin (5404319552844595 / 2 ^ 55)"
  unfolding taxa_padrao_def
  by (rule py_float_posI[where k = 55]) (simp_all add: e_min_def round_half_even_def Let_def)

lemma base_padrao: "float_add (Fin 1) taxa_padrao = Fin (2589569785738035 / 2 ^ 51)"
  unfolding taxa_padrao_value float_add.simps
  by (rule py_float_posI[where k = 52]) (simp_all add: e_min_def round_half_even_def Let_def)

lemma pow_sq_ub:
  fixes x m m' :: real
  assumes "x ^ k \<le> m * 2 ^ e" and "0 \<le> x" and "m * m \<le> m' * 2 ^ d"
  shows "x ^ (2 * k) \<le> m' * 2 ^ (2 * e + d)"
proof -
  have "x ^ (2 * k) = x ^ k * x ^ k" by (simp add: power2_eq_square power_mult mult.commute)
  also have "\<dots> \<le> (m * 2 ^ e) * (m * 2 ^ e)"
    using assms(1,2) by (intro mult_mono) (auto intro: order_trans[of 0 "x ^ k"])
  also have "\<dots> = (m * m) * 2 ^ (2 * e)" by (simp add: mult_2 power_add)
  also have "\<dots> \<le> (m' * 2 ^ d) * 2 ^ (2 * e)"
    using assms(3) by (intro mult_right_mono) simp_all
  also have "\<dots> = m' * 2 ^ (2 * e + d)" by (simp add: power_add)
  finally show ?thesis .
qed

lemma pow_suc_ub:
  fixes x m m' c :: real
  assumes "x ^ k \<le> m * 2 ^ e" and "x \<le> c" and "0 \<le> x" and "m * c \<le> m' * 2 ^ d" and "0 \<le> m"
  shows "x ^ Suc k \<le> m' * 2 ^ (e + d)"
proof -
  have "x ^ Suc k = x ^ k * x" by simp
  also have "\<dots> \<le> (m * 2 ^ e) * c"
    using assms(1,2,3,5) by (intro mult_mono) simp_all
  also have "\<dots> = (m * c) * 2 ^ e" by simp
  also have "\<dots> \<le> (m' * 2 ^ d) * 2 ^ e"
    using assms(4) by (intro mult_right_mono) simp_all
  also have "\<dots> = m' * 2 ^ (e + d)" by (simp add: power_add)
  finally show ?thesis .
qed

lemma pow_sq_lb:
  fixes x m m' :: real
  assumes "m * 2 ^ e \<le> x ^ k" and "0 \<le> m" and "m' * 2 ^ d \<le> m * m"
  shows "m' * 2 ^ (2 * e + d) \<le> x ^ (2 * k)"
proof -
  have "m' * 2 ^ (2 * e + d) = (m' * 2 ^ d) * 2 ^ (2 * e)" by (simp add: power_add)
  also have "\<dots> \<le> (m * m) * 2 ^ (2 * e)"
    using assms(3) by (intro mult_right_mono) simp_all
  also have "\<dots> = (m * 2 ^ e) * (m * 2 ^ e)" by (simp add: mult_2 power_add)
  also have "\<dots> \<le> x ^ k * x ^ k"
  proof -
    have "0 \<le> m * 2 ^ e" using assms(2) by simp
    with assms(1) have "0 \<le> x ^ k" by linarith
    with assms(1) \<open>0 \<le> m * 2 ^ e\<close> show ?thesis by (intro mult_mono) simp_all
  qed
  also have "\<dots> = x ^ (2 * k)" by (simp add: power2_eq_square power_mult mult.commute)
  finally show ?thesis .
qed

lemma pow_suc_lb:
  fixes x m m' c :: real
  assumes "m * 2 ^ e \<le> x ^ k" and "c \<le> x" and "0 \<le> c" and "m' * 2 ^ d \<le> m * c" and "0 \<le> m"
  shows "m' * 2 ^ (e + d) \<le> x ^ Suc k"
proof -
  have "m' * 2 ^ (e + d) = (m' * 2 ^ d) * 2 ^ e" by (simp add: power_add)
  also have "\<dots> \<le> (m * c) * 2 ^ e"
    using assms(4) by (intro mult_right_mono) simp_all
  also have "\<dots> = (m * 2 ^ e) * c" by simp
  also have "\<dots> \<le> x ^ k * x"
    using assms(1,2,3,5) by (intro mult_mono) simp_all
  also have "\<dots> = x ^ Suc k" by simp
  finally show ?thesis .
qed

text \<open>
  The base \<open>1 + 0.15\<close> is a little below \<open>1.15\<close>. Its power 5078 is about \<open>1.67e308\<close>, within
  the float range; its power 5079 is about \<open>1.92e308\<close>, beyond it.
\<close>

lemma base_pow_5078:
  "(2589569785738035 / 2 ^ 51 :: real) ^ 5078 < limiar_overflow"
proof -
  define x :: real where "x = 2589569785738035 / 2 ^ 51"
  have x0: "0 \<le> x" by (simp add: x_def)
  have xc: "x \<le> 23 / 20" by (simp add: x_def)
  have u1: "x ^ 1 \<le> 1234803098 / 2 ^ 30 * 2 ^ 0"
    using xc by simp
  have u2: "x ^ 2 \<le> 1420023564 / 2 ^ 30 * 2 ^ 0"
    using x0 pow_sq_ub[OF u1, of "1420023564 / 2 ^ 30" 0] by simp
  have u4: "x ^ 4 \<le> 1877981166 / 2 ^ 30 * 2 ^ 0"
    using x0 pow_sq_ub[OF u2, of "1877981166 / 2 ^ 30" 0] by simp
  have u8: "x ^ 8 \<le> 1642300403 / 2 ^ 30 * 2 ^ 1"
    using x0 pow_sq_ub[OF u4, of "1642300403 / 2 ^ 30" 1] by simp
  have u9: "x ^ 9 \<le> 1888645464 / 2 ^ 30 * 2 ^ 1"
    using x0 pow_suc_ub[OF u8 xc, of "1888645464 / 2 ^ 30" 0] by simp
  have u18: "x ^ 18 \<le> 1661005285 / 2 ^ 30 * 2 ^ 3"
    using x0 pow_sq_ub[OF u9, of "1661005285 / 2 ^ 30" 1] by simp
  have u19: "x ^ 19 \<le> 1910156078 / 2 ^ 30 * 2 ^ 3"
    using x0 pow_suc_ub[OF u18 xc, of "1910156078 / 2 ^ 30" 0] by simp
  have u38: "x ^ 38 \<le> 1699056590 / 2 ^ 30 * 2 ^ 7"
    using x0 pow_sq_ub[OF u19, of "1699056590 / 2 ^ 30" 1] by simp
  have u39: "x ^ 39 \<le> 1953915079 / 2 ^ 30 * 2 ^ 7"
    using x0 pow_suc_ub[OF u38 xc, of "1953915079 / 2 ^ 30" 0] by simp
  have u78: "x ^ 78 \<le> 1777794276 / 2 ^ 30 * 2 ^ 15"
    using x0 pow_sq_ub[OF u39, of "1777794276 / 2 ^ 30" 1] by simp
  have u79: "x ^ 79 \<le> 2044463418 / 2 ^ 30 * 2 ^ 15"
    using x0 pow_suc_ub[OF u78 xc, of "2044463418 / 2 ^ 30" 0] by simp
  have u158: "x ^ 158 \<le> 1946385330 / 2 ^ 30 * 2 ^ 31"
    using x0 pow_sq_ub[OF u79, of "1946385330 / 2 ^ 30" 1] by simp
  have u316: "x ^ 316 \<le> 1764118603 / 2 ^ 30 * 2 ^ 63"
    using x0 pow_sq_ub[OF u158, of "1764118603 / 2 ^ 30" 1] by simp
  have u317: "x ^ 317 \<le> 2028736394 / 2 ^ 30 * 2 ^ 63"
    using x0 pow_suc_ub[OF u316 xc, of "2028736394 / 2 ^ 30" 0] by simp
  have u634: "x ^ 634 \<le> 1916555389 / 2 ^ 30 * 2 ^ 127"
    using x0 pow_sq_ub[OF u317, of "1916555389 / 2 ^ 30" 1] by simp
  have u1268: "x ^ 1268 \<le> 1710459851 / 2 ^ 30 * 2 ^ 255"
    using x0 pow_sq_ub[OF u634, of "1710459851 / 2 ^ 30" 1] by simp
  have u1269: "x ^ 1269 \<le> 1967028829 / 2 ^ 30 * 2 ^ 255"
    using x0 pow_suc_ub[OF u1268 xc, of "1967028829 / 2 ^ 30" 0] by simp
  have u2538: "x ^ 2538 \<le> 1801737778 / 2 ^ 30 * 2 ^ 511"
    using x0 pow_sq_ub[OF u1269, of "1801737778 / 2 ^ 30" 1] by simp
  have u2539: "x ^ 2539 \<le> 2071998445 / 2 ^ 30 * 2 ^ 511"
    using x0 pow_suc_ub[OF u2538 xc, of "2071998445 / 2 ^ 30" 0] by simp
  have u5078: "x ^ 5078 \<le> 1999166588 / 2 ^ 30 * 2 ^ 1023"
    using x0 pow_sq_ub[OF u2539, of "1999166588 / 2 ^ 30" 1] by simp
  have "(1999166588 / 2 ^ 30 :: real) < 2 - 1 / 2 ^ 53" by simp
  then have "(1999166588 / 2 ^ 30 :: real) * 2 ^ 1023 < (2 - 1 / 2 ^ 53) * 2 ^ 1023"
    by (intro mult_strict_right_mono) simp_all
  with u5078 have "x ^ 5078 < limiar_overflow"
    unfolding limiar_overflow_eq by (rule order_le_less_trans)
  then show ?thesis by (simp only: x_def)
qed

lemma base_pow_5079:
  "limiar_overflow \<le> (2589569785738035 / 2 ^ 51 :: real) ^ 5079"
proof -
  define x :: real where "x = 2589569785738035 / 2 ^ 51"
  have xc: "1149999999 / 1000000000 \<le> x" by (simp add: x_def)
  have l1: "1234803096 / 2 ^ 30 * 2 ^ 0 \<le> x ^ 1"
    using xc by simp
  have l2: "1420023558 / 2 ^ 30 * 2 ^ 0 \<le> x ^ 2"
    using pow_sq_lb[OF l1, of "1420023558 / 2 ^ 30" 0] by simp
  have l4: "1877981149 / 2 ^ 30 * 2 ^ 0 \<le> x ^ 4"
    using pow_sq_lb[OF l2, of "1877981149 / 2 ^ 30" 0] by simp
  have l8: "1642300372 / 2 ^ 30 * 2 ^ 1 \<le> x ^ 8"
    using pow_sq_lb[OF l4, of "1642300372 / 2 ^ 30" 1] by simp
  have l9: "1888645426 / 2 ^ 30 * 2 ^ 1 \<le> x ^ 9"
    using pow_suc_lb[OF l8 xc, of "1888645426 / 2 ^ 30" 0] by simp
  have l18: "1661005218 / 2 ^ 30 * 2 ^ 3 \<le> x ^ 18"
    using pow_sq_lb[OF l9, of "1661005218 / 2 ^ 30" 1] by simp
  have l19: "1910155999 / 2 ^ 30 * 2 ^ 3 \<le> x ^ 19"
    using pow_suc_lb[OF l18 xc, of "1910155999 / 2 ^ 30" 0] by simp
  have l38: "1699056448 / 2 ^ 30 * 2 ^ 7 \<le> x ^ 38"
    using pow_sq_lb[OF l19, of "1699056448 / 2 ^ 30" 1] by simp
  have l39: "1953914913 / 2 ^ 30 * 2 ^ 7 \<le> x ^ 39"
    using pow_suc_lb[OF l38 xc, of "1953914913 / 2 ^ 30" 0] by simp
  have l78: "1777793973 / 2 ^ 30 * 2 ^ 15 \<le> x ^ 78"
    using pow_sq_lb[OF l39, of "1777793973 / 2 ^ 30" 1] by simp
  have l79: "2044463067 / 2 ^ 30 * 2 ^ 15 \<le> x ^ 79"
    using pow_suc_lb[OF l78 xc, of "2044463067 / 2 ^ 30" 0] by simp
  have l158: "1946384661 / 2 ^ 30 * 2 ^ 31 \<le> x ^ 158"
    using pow_sq_lb[OF l79, of "1946384661 / 2 ^ 30" 1] by simp
  have l316: "1764117390 / 2 ^ 30 * 2 ^ 63 \<le> x ^ 316"
    using pow_sq_lb[OF l158, of "1764117390 / 2 ^ 30" 1] by simp
  have l317: "2028734996 / 2 ^ 30 * 2 ^ 63 \<le> x ^ 317"
    using pow_suc_lb[OF l316 xc, of "2028734996 / 2 ^ 30" 0] by simp
  have l634: "1916552746 / 2 ^ 30 * 2 ^ 127 \<le> x ^ 634"
    using pow_sq_lb[OF l317, of "1916552746 / 2 ^ 30" 1] by simp
  have l1268: "1710455132 / 2 ^ 30 * 2 ^ 255 \<le> x ^ 1268"
    using pow_sq_lb[OF l634, of "1710455132 / 2 ^ 30" 1] by simp
  have l1269: "1967023400 / 2 ^ 30 * 2 ^ 255 \<le> x ^ 1269"
    using pow_suc_lb[OF l1268 xc, of "1967023400 / 2 ^ 30" 0] by simp
  have l2538: "1801727831 / 2 ^ 30 * 2 ^ 511 \<le> x ^ 2538"
    using pow_sq_lb[OF l1269, of "1801727831 / 2 ^ 30" 1] by simp
  have l2539: "2071987003 / 2 ^ 30 * 2 ^ 511 \<le> x ^ 2539"
    using pow_suc_lb[OF l2538 xc, of "2071987003 / 2 ^ 30" 0] by simp
  have l5078: "1999144507 / 2 ^ 30 * 2 ^ 1023 \<le> x ^ 5078"
    using pow_sq_lb[OF l2539, of "1999144507 / 2 ^ 30" 1] by simp
  have l5079: "1149508090 / 2 ^ 30 * 2 ^ 1024 \<le> x ^ 5079"
    using pow_suc_lb[OF l5078 xc, of "1149508090 / 2 ^ 30" 1] by simp
  have "(2 - 1 / 2 ^ 53) * 2 ^ 1023 \<le> (2::real) * 2 ^ 1023"
    by (intro mult_right_mono) simp_all
  also have "\<dots> = 1 * 2 ^ 1024" by simp
  also have "\<dots> \<le> (1149508090 / 2 ^ 30 :: real) * 2 ^ 1024"
    by (intro mult_right_mono) simp_all
  finally have "limiar_overflow \<le> x ^ 5079"
    unfolding limiar_overflow_eq using l5079 by (rule order_trans)
  then show ?thesis by (simp only: x_def)
qed


text \<open>
  With the default rate the discount factor of a period is defined, and not zero, exactly
  up to the exponent 5078.
\<close>

lemma float_pow_padrao_ok:
  assumes "k \<le> 5078"
  shows "\<exists>p. float_pow (float_add (Fin 1) taxa_padrao) k = Inr (Fin p) \<and> p \<noteq> 0"
proof (cases "k = 0")
  case True
  then show ?thesis by (simp add: float_pow_def)
next
  case False
  define x :: real where "x = 2589569785738035 / 2 ^ 51"
  have base: "float_add (Fin 1) taxa_padrao = Fin x" by (simp only: base_padrao x_def)
  have x1: "1 \<le> x" by (simp add: x_def)
  have "x ^ k \<le> x ^ 5078" using assms x1 by (rule power_increasing)
  moreover have "x ^ 5078 < limiar_overflow" using base_pow_5078 by (simp only: x_def)
  ultimately have lt: "x ^ k < limiar_overflow" by (rule order_le_less_trans)
  have pos: "1 \<le> x ^ k" using x1 by (rule one_le_power)
  have lim: "0 < limiar_overflow" using limiar_overflow_gt by (smt (verit) zero_less_power)
  have "float_pow (Fin x) k = Inr (py_float (x ^ k))"
    using False lt pos by (simp add: float_pow_def)
  moreover have "py_float (x ^ k) = Fin (arredondar (x ^ k))"
    using lt pos lim by (simp add: py_float_def)
  moreover have "0 < arredondar (x ^ k)"
  proof (rule arredondar_pos)
    have "(1::real) \<le> 2 ^ e_min" by simp
    with pos have "1 * 1 \<le> x ^ k * 2 ^ e_min" by (intro mult_mono) simp_all
    then show "1 \<le> x ^ k * 2 ^ e_min" by simp
  qed
  ultimately show ?thesis using base by auto
qed

lemma float_pow_padrao_overflow:
  assumes "5079 \<le> k"
  shows "float_pow (float_add (Fin 1) taxa_padrao) k = Inl OverflowError"
proof -
  define x :: real where "x = 2589569785738035 / 2 ^ 51"
  have base: "float_add (Fin 1) taxa_padrao = Fin x" by (simp only: base_padrao x_def)
  have x1: "1 \<le> x" by (simp add: x_def)
  have "limiar_overflow \<le> x ^ 5079" using base_pow_5079 by (simp only: x_def)
  moreover have "x ^ 5079 \<le> x ^ k" using assms x1 by (rule power_increasing)
  ultimately have "limiar_overflow \<le> x ^ k" by (rule order_trans)
  moreover have "0 \<le> x ^ k" using x1 by simp
  moreover have "k \<noteq> 0" using assms by simp
  ultimately show ?thesis using base by (simp add: float_pow_def)
qed

lemma float_pow_padrao_cases:
  "float_pow (float_add (Fin 1) taxa_padrao) k = Inl OverflowError
   \<or> (\<exists>p. float_pow (float_add (Fin 1) taxa_padrao) k = Inr (Fin p) \<and> p \<noteq> 0)"
proof (cases "k \<le> 5078")
  case True
  then show ?thesis using float_pow_padrao_ok by blast
next
  case False
  then have "5079 \<le> k" by simp
  then show ?thesis using float_pow_padrao_overflow by blast
qed

lemma valor_descontado_padrao_ok:
  assumes "a \<le> 5079"
  shows "\<exists>q. valor_descontado cash taxa_padrao a = Inr q"
proof -
  from assms have "a - 1 \<le> 5078" by simp
  from float_pow_padrao_ok[OF this] obtain p where
    "float_pow (float_add (Fin 1) taxa_padrao) (a - 1) = Inr (Fin p)" "p \<noteq> 0" by blast
  then show ?thesis by (simp add: valor_descontado_def float_truediv_def)
qed

lemma valor_descontado_padrao_overflow:
  assumes "5080 \<le> a"
  shows "valor_descontado cash taxa_padrao a = Inl OverflowError"
proof -
  from assms have "5079 \<le> a - 1" by simp
  from float_pow_padrao_overflow[OF this] show ?thesis by (simp add: valor_descontado_def)
qed

lemma valor_descontado_padrao_cases:
  "valor_descontado cash taxa_padrao a = Inl OverflowError
   \<or> (\<exists>q. valor_descontado cash taxa_padrao a = Inr q)"
proof (cases "a \<le> 5079")
  case True
  then show ?thesis using valor_descontado_padrao_ok by blast
next
  case False
  then have "5080 \<le> a" by simp
  then show ?thesis using valor_descontado_padrao_overflow by blast
qed

section \<open>Properties of the economic evaluation\<close>

lemma vpl_loop_append:
  "vpl_loop inst t c (xs @ ys) st =
     (case vpl_loop inst t c xs st of Inl e \<Rightarrow> Inl e | Inr st' \<Rightarrow> vpl_loop inst t c ys st')"
  by (induction xs arbitrary: st) (auto split: sum.splits)

lemma vpl_step_skip:
  "preds_dict inst b = Some preds \<Longrightarrow> \<not> set preds \<subseteq> visitados st \<Longrightarrow>
   vpl_step inst t c st b = Inr st"
  by (auto simp: vpl_step_def list_all_iff)

lemma vpl_step_waste:
  "preds_dict inst b = Some preds \<Longrightarrow> set preds \<subseteq> visitados st \<Longrightarrow>
   dest_dict inst b = Some d \<Longrightarrow> d \<noteq> 1 \<Longrightarrow> tonn_dict inst b = Some ton \<Longrightarrow>
   val_ore_dict inst b = Some val \<Longrightarrow>
   vpl_step inst t c st b =
     (case valor_descontado (float_mul (Fin (- 0.75)) ton) t (ano st) of
        Inl e \<Rightarrow> Inl e
      | Inr q \<Rightarrow>
          Inr \<lparr>ano = ano st, ton_acumulada = ton_acumulada st,
               valor_total = float_add (valor_total st) q,
               visitados = insert b (visitados st)\<rparr>)"
  by (auto simp: vpl_step_def list_all_iff Let_def)

lemma vpl_step_ore:
  "preds_dict inst b = Some preds \<Longrightarrow> set preds \<subseteq> visitados st \<Longrightarrow>
   dest_dict inst b = Some 1 \<Longrightarrow> tonn_dict inst b = Some ton \<Longrightarrow>
   val_ore_dict inst b = Some val \<Longrightarrow>
   vpl_step inst t c st b =
     (if float_gt (float_add (ton_acumulada st) ton) c
      then (case valor_descontado (float_add (float_mul (Fin (- 0.75)) ton) val) t (ano st + 1) of
              Inl e \<Rightarrow> Inl e
            | Inr q \<Rightarrow>
                Inr \<lparr>ano = ano st + 1, ton_acumulada = float_add (Fin 0) ton,
                     valor_total = float_add (valor_total st) q,
                     visitados = insert b (visitados st)\<rparr>)
      else (case valor_descontado (float_add (float_mul (Fin (- 0.75)) ton) val) t (ano st) of
              Inl e \<Rightarrow> Inl e
            | Inr q \<Rightarrow>
                Inr \<lparr>ano = ano st, ton_acumulada = float_add (ton_acumulada st) ton,
                     valor_total = float_add (valor_total st) q,
                     visitados = insert b (visitados st)\<rparr>))"
  by (auto simp: vpl_step_def list_all_iff Let_def)

text \<open>
  The discount factor of the period the evaluator is in has been computed without an error
  and is not zero: the factor of period 1 is \<open>1.0\<close>, and a later period is entered only by
  a block whose cash was divided by that period's factor.
\<close>

lemma valor_descontado_fator:
  "valor_descontado cash t a = Inr q \<Longrightarrow>
   \<exists>f. float_pow (float_add (Fin 1) t) (a - 1) = Inr f \<and> f \<noteq> Fin 0"
  by (auto simp: valor_descontado_def float_truediv_def split: sum.splits if_splits)

lemma fator_valor_descontado:
  "float_pow (float_add (Fin 1) t) (a - 1) = Inr f \<Longrightarrow> f \<noteq> Fin 0 \<Longrightarrow>
   valor_descontado cash t a = Inr (quociente cash f)"
  by (simp add: valor_descontado_def float_truediv_def)

lemma vpl_step_fator:
  assumes "vpl_step inst t c st b = Inr st'"
    and "\<exists>f. float_pow (float_add (Fin 1) t) (ano st - 1) = Inr f \<and> f \<noteq> Fin 0"
  shows "\<exists>f. float_pow (float_add (Fin 1) t) (ano st' - 1) = Inr f \<and> f \<noteq> Fin 0"
proof (cases "st' = st")
  case True
  with assms(2) show ?thesis by simp
next
  case False
  with assms(1) obtain cash q where "valor_descontado cash t (ano st') = Inr q"
    by (auto simp: vpl_step_def Let_def split: option.splits if_splits sum.splits)
  then show ?thesis by (rule valor_descontado_fator)
qed

lemma vpl_loop_fator_aux:
  "vpl_loop inst t c xs st = Inr st' \<Longrightarrow>
   \<exists>f. float_pow (float_add (Fin 1) t) (ano st - 1) = Inr f \<and> f \<noteq> Fin 0 \<Longrightarrow>
   \<exists>f. float_pow (float_add (Fin 1) t) (ano st' - 1) = Inr f \<and> f \<noteq> Fin 0"
proof (induction xs arbitrary: st)
  case Nil
  then show ?case by simp
next
  case (Cons b xs)
  from Cons.prems(1) obtain st1 where s: "vpl_step inst t c st b = Inr st1"
    and r: "vpl_loop inst t c xs st1 = Inr st'"
    by (auto split: sum.splits)
  from Cons.IH[OF r vpl_step_fator[OF s Cons.prems(2)]] show ?case .
qed

lemma vpl_loop_fator:
  assumes "vpl_loop inst t c xs vpl_init = Inr st"
  shows "\<exists>f. float_pow (float_add (Fin 1) t) (ano st - 1) = Inr f \<and> f \<noteq> Fin 0"
proof -
  have "\<exists>f. float_pow (float_add (Fin 1) t) (ano vpl_init - 1) = Inr f \<and> f \<noteq> Fin 0"
    by (simp add: vpl_init_def float_pow_def)
  from vpl_loop_fator_aux[OF assms this] show ?thesis .
qed

lemma vpl_loop_valor_descontado:
  assumes "vpl_loop inst t c xs vpl_init = Inr st"
  shows "\<exists>q. valor_descontado cash t (ano st) = Inr q"
  using vpl_loop_fator[OF assms] fator_valor_descontado by blast

text \<open>The floats that occur in the worked examples.\<close>

lemma floats_exemplo:
  "py_float (- (15 / 2)) = Fin (- (15 / 2))"
  "py_float (- (5 / 2)) = Fin (- (5 / 2))"
  "py_float (10) = Fin (10)"
  "py_float (- 10) = Fin (- 10)"
  "py_float (1 / 2) = Fin (1 / 2)"
  "py_float (20) = Fin (20)"
  "py_float (2589569785738035 / 2251799813685248) = Fin (2589569785738035 / 2251799813685248)"
  "py_float (1125899906842624 / 2589569785738035) = Fin (3916173589017823 / 9007199254740992)"
  "py_float (- (86155818958392097 / 9007199254740992)) = Fin (- (2692369342449753 / 281474976710656))"
  "py_float (- (15 / 4)) = Fin (- (15 / 4))"
  "py_float (- (7 / 4)) = Fin (- (7 / 4))"
  "py_float (15) = Fin (15)"
  "py_float (- (3940649673949184 / 2589569785738035)) = Fin (- (3426651890390595 / 2251799813685248))"
  "py_float (- (24965606629988619 / 2251799813685248)) = Fin (- (6241401657497155 / 562949953421312))"
  "py_float (- (18601824547834657 / 9007199254740992)) = Fin (- (581307017119833 / 281474976710656))"
  "py_float (5) = Fin (5)"
proof -
  show "py_float (- (15 / 2)) = Fin (- (15 / 2))"
    by (rule py_float_negI[where k = 50]) (simp_all add: e_min_def round_half_even_def Let_def)
  show "py_float (- (5 / 2)) = Fin (- (5 / 2))"
    by (rule py_float_negI[where k = 51]) (simp_all add: e_min_def round_half_even_def Let_def)
  show "py_float (10) = Fin (10)"
    by (rule py_float_posI[where k = 49]) (simp_all add: e_min_def round_half_even_def Let_def)
  show "py_float (- 10) = Fin (- 10)"
    by (rule py_float_negI[where k = 49]) (simp_all add: e_min_def round_half_even_def Let_def)
  show "py_float (1 / 2) = Fin (1 / 2)"
    by (rule py_float_posI[where k = 53]) (simp_all add: e_min_def round_half_even_def Let_def)
  show "py_float (20) = Fin (20)"
    by (rule py_float_posI[where k = 48]) (simp_all add: e_min_def round_half_even_def Let_def)
  show "py_float (2589569785738035 / 2251799813685248) = Fin (2589569785738035 / 2251799813685248)"
    by (rule py_float_posI[where k = 52]) (simp_all add: e_min_def round_half_even_def Let_def)
  show "py_float (1125899906842624 / 2589569785738035) = Fin (3916173589017823 / 9007199254740992)"
    by (rule py_float_posI[where k = 54]) (simp_all add: e_min_def round_half_even_def Let_def)
  show "py_float (- (86155818958392097 / 9007199254740992)) = Fin (- (2692369342449753 / 281474976710656))"
    by (rule py_float_negI[where k = 49]) (simp_all add: e_min_def round_half_even_def Let_def)
  show "py_float (- (15 / 4)) = Fin (- (15 / 4))"
    by (rule py_float_negI[where k = 51]) (simp_all add: e_min_def round_half_even_def Let_def)
  show "py_float (- (7 / 4)) = Fin (- (7 / 4))"
    by (rule py_float_negI[where k = 52]) (simp_all add: e_min_def round_half_even_def Let_def)
  show "py_float (15) = Fin (15)"
    by (rule py_float_posI[where k = 49]) (simp_all add: e_min_def round_half_even_def Let_def)
  show "py_float (- (3940649673949184 / 2589569785738035)) = Fin (- (3426651890390595 / 2251799813685248))"
    by (rule py_float_negI[where k = 52]) (simp_all add: e_min_def round_half_even_def Let_def)
  show "py_float (- (24965606629988619 / 2251799813685248)) = Fin (- (6241401657497155 / 562949953421312))"
    by (rule py_float_negI[where k = 49]) (simp_all add: e_min_def round_half_even_def Let_def)
  show "py_float (- (18601824547834657 / 9007199254740992)) = Fin (- (581307017119833 / 281474976710656))"
    by (rule py_float_negI[where k = 51]) (simp_all add: e_min_def round_half_even_def Let_def)
  show "py_float (5) = Fin (5)"
    by (rule py_float_posI[where k = 50]) (simp_all add: e_min_def round_half_even_def Let_def)
qed

lemma fator_periodo_1: "float_pow x 0 = Inr (Fin 1)"
  by (simp add: float_pow_def)

lemma fator_periodo_2_padrao:
  "float_pow (float_add (Fin 1) taxa_padrao) (Suc 0) = Inr (Fin (2589569785738035 / 2 ^ 51))"
proof -
  have "(2589569785738035 / 2 ^ 51 :: real) < limiar_overflow"
    using limiar_overflow_gt by simp
  then show ?thesis
    using floats_exemplo(7) by (simp add: base_padrao float_pow_def)
qed

text \<open>
  Claim C4. Let \<open>st\<close> be the state after any evaluated prefix \<open>xs\<close>. For an ore block \<open>b\<close>
  whose predecessors are all counted, the evaluator moves to the next period and restarts
  the accumulated tonnage at zero, before adding the block's tonnage, exactly when the
  float sum of the accumulated tonnage and the block's tonnage is strictly above the
  capacity; the block's cash is discounted with the period it ends up in. A block that
  stays in the current period cannot raise; a block that opens a new period raises when
  the new discount factor leaves the float range or is zero. For two ore blocks \<open>A\<close> and
  \<open>B\<close> of tonnage 10 without predecessors and capacity 15, \<open>[A, B]\<close> puts \<open>A\<close> in period 1
  (its cash divided by \<open>(1 + rate) ** 0\<close>, which is \<open>1.0\<close>) and \<open>B\<close> in period 2 (its cash
  divided by \<open>(1 + rate) ** 1\<close>).
\<close>

theorem capacity_rollover:
  assumes "vpl_loop inst t c xs vpl_init = Inr st"
  shows "(preds_dict inst b = Some preds \<and> set preds \<subseteq> visitados st \<and>
          dest_dict inst b = Some 1 \<and> tonn_dict inst b = Some ton \<and>
          val_ore_dict inst b = Some val \<longrightarrow>
          vpl_loop inst t c (xs @ [b]) vpl_init =
            (if float_gt (float_add (ton_acumulada st) ton) c
             then (case valor_descontado (float_add (float_mul (Fin (- 0.75)) ton) val) t
                         (ano st + 1) of
                     Inl e \<Rightarrow> Inl e
                   | Inr q \<Rightarrow>
                       Inr \<lparr>ano = ano st + 1, ton_acumulada = float_add (Fin 0) ton,
                            valor_total = float_add (valor_total st) q,
                            visitados = insert b (visitados st)\<rparr>)
             else (case valor_descontado (float_add (float_mul (Fin (- 0.75)) ton) val) t
                         (ano st) of
                     Inl e \<Rightarrow> Inl e
                   | Inr q \<Rightarrow>
                       Inr \<lparr>ano = ano st, ton_acumulada = float_add (ton_acumulada st) ton,
                            valor_total = float_add (valor_total st) q,
                            visitados = insert b (visitados st)\<rparr>))
          \<and> (\<exists>q. valor_descontado (float_add (float_mul (Fin (- 0.75)) ton) val) t (ano st)
                   = Inr q))
       \<and> (preds_dict inst A = Some [] \<and> preds_dict inst B = Some [] \<and>
          dest_dict inst A = Some 1 \<and> dest_dict inst B = Some 1 \<and>
          tonn_dict inst A = Some (Fin 10) \<and> tonn_dict inst B = Some (Fin 10) \<and>
          val_ore_dict inst A = Some va \<and> val_ore_dict inst B = Some vb \<longrightarrow>
          vpl_loop inst t (Fin 15) [A] vpl_init =
            Inr \<lparr>ano = 1, ton_acumulada = Fin 10,
                 valor_total =
                   float_add (Fin 0)
                     (quociente (float_add (float_mul (Fin (- 0.75)) (Fin 10)) va) (Fin 1)),
                 visitados = {A}\<rparr>
          \<and> vpl_loop inst t (Fin 15) [A, B] vpl_init =
            (case valor_descontado (float_add (float_mul (Fin (- 0.75)) (Fin 10)) vb) t 2 of
               Inl e \<Rightarrow> Inl e
             | Inr q \<Rightarrow>
                 Inr \<lparr>ano = 2, ton_acumulada = Fin 10,
                      valor_total =
                        float_add
                          (float_add (Fin 0)
                             (quociente (float_add (float_mul (Fin (- 0.75)) (Fin 10)) va)
                                (Fin 1)))
                          q,
                      visitados = {B, A}\<rparr>)
          \<and> valor_descontado (float_add (float_mul (Fin (- 0.75)) (Fin 10)) vb) t 2 =
            (case float_pow (float_add (Fin 1) t) 1 of
               Inl e \<Rightarrow> Inl e
             | Inr fator \<Rightarrow>
                 float_truediv (float_add (float_mul (Fin (- 0.75)) (Fin 10)) vb) fator))"
proof (intro conjI impI)
  assume h: "preds_dict inst b = Some preds \<and> set preds \<subseteq> visitados st \<and>
          dest_dict inst b = Some 1 \<and> tonn_dict inst b = Some ton \<and>
          val_ore_dict inst b = Some val"
  then have "vpl_step inst t c st b =
            (if float_gt (float_add (ton_acumulada st) ton) c
             then (case valor_descontado (float_add (float_mul (Fin (- 0.75)) ton) val) t
                         (ano st + 1) of
                     Inl e \<Rightarrow> Inl e
                   | Inr q \<Rightarrow>
                       Inr \<lparr>ano = ano st + 1, ton_acumulada = float_add (Fin 0) ton,
                            valor_total = float_add (valor_total st) q,
                            visitados = insert b (visitados st)\<rparr>)
             else (case valor_descontado (float_add (float_mul (Fin (- 0.75)) ton) val) t
                         (ano st) of
                     Inl e \<Rightarrow> Inl e
                   | Inr q \<Rightarrow>
                       Inr \<lparr>ano = ano st, ton_acumulada = float_add (ton_acumulada st) ton,
                            valor_total = float_add (valor_total st) q,
                            visitados = insert b (visitados st)\<rparr>))"
    using vpl_step_ore[of inst b preds st ton val t c] by blast
  with assms show "vpl_loop inst t c (xs @ [b]) vpl_init =
            (if float_gt (float_add (ton_acumulada st) ton) c
             then (case valor_descontado (float_add (float_mul (Fin (- 0.75)) ton) val) t
                         (ano st + 1) of
                     Inl e \<Rightarrow> Inl e
                   | Inr q \<Rightarrow>
                       Inr \<lparr>ano = ano st + 1, ton_acumulada = float_add (Fin 0) ton,
                            valor_total = float_add (valor_total st) q,
                            visitados = insert b (visitados st)\<rparr>)
             else (case valor_descontado (float_add (float_mul (Fin (- 0.75)) ton) val) t
                         (ano st) of
                     Inl e \<Rightarrow> Inl e
                   | Inr q \<Rightarrow>
                       Inr \<lparr>ano = ano st, ton_acumulada = float_add (ton_acumulada st) ton,
                            valor_total = float_add (valor_total st) q,
                            visitados = insert b (visitados st)\<rparr>))"
    by (simp add: vpl_loop_append split: sum.splits)
  show "\<exists>q. valor_descontado (float_add (float_mul (Fin (- 0.75)) ton) val) t (ano st) = Inr q"
    by (rule vpl_loop_valor_descontado[OF assms])
next
  assume h: "preds_dict inst A = Some [] \<and> preds_dict inst B = Some [] \<and>
          dest_dict inst A = Some 1 \<and> dest_dict inst B = Some 1 \<and>
          tonn_dict inst A = Some (Fin 10) \<and> tonn_dict inst B = Some (Fin 10) \<and>
          val_ore_dict inst A = Some va \<and> val_ore_dict inst B = Some vb"
  define ca where "ca = float_add (float_mul (Fin (- 0.75)) (Fin 10)) va"
  define cb where "cb = float_add (float_mul (Fin (- 0.75)) (Fin 10)) vb"
  have sA: "vpl_step inst t (Fin 15) vpl_init A =
      Inr \<lparr>ano = 1, ton_acumulada = Fin 10,
           valor_total = float_add (Fin 0) (quociente ca (Fin 1)), visitados = {A}\<rparr>"
    using h floats_exemplo(3)
    by (simp add: vpl_step_def vpl_init_def Let_def valor_descontado_def float_pow_def
        float_truediv_def ca_def)
  have sB: "vpl_step inst t (Fin 15) \<lparr>ano = 1, ton_acumulada = Fin 10,
           valor_total = float_add (Fin 0) (quociente ca (Fin 1)), visitados = {A}\<rparr> B =
      (case valor_descontado cb t 2 of
         Inl e \<Rightarrow> Inl e
       | Inr q \<Rightarrow>
           Inr \<lparr>ano = 2, ton_acumulada = Fin 10,
                valor_total = float_add (float_add (Fin 0) (quociente ca (Fin 1))) q,
                visitados = {B, A}\<rparr>)"
    using h floats_exemplo(3,6)
    by (simp add: vpl_step_def Let_def cb_def numeral_2_eq_2 split: sum.splits)
  show "vpl_loop inst t (Fin 15) [A] vpl_init =
            Inr \<lparr>ano = 1, ton_acumulada = Fin 10,
                 valor_total =
                   float_add (Fin 0)
                     (quociente (float_add (float_mul (Fin (- 0.75)) (Fin 10)) va) (Fin 1)),
                 visitados = {A}\<rparr>"
    using sA by (simp add: ca_def)
  show "vpl_loop inst t (Fin 15) [A, B] vpl_init =
            (case valor_descontado (float_add (float_mul (Fin (- 0.75)) (Fin 10)) vb) t 2 of
               Inl e \<Rightarrow> Inl e
             | Inr q \<Rightarrow>
                 Inr \<lparr>ano = 2, ton_acumulada = Fin 10,
                      valor_total =
                        float_add
                          (float_add (Fin 0)
                             (quociente (float_add (float_mul (Fin (- 0.75)) (Fin 10)) va)
                                (Fin 1)))
                          q,
                      visitados = {B, A}\<rparr>)"
    using sA sB by (simp add: ca_def cb_def split: sum.splits)
  show "valor_descontado (float_add (float_mul (Fin (- 0.75)) (Fin 10)) vb) t 2 =
            (case float_pow (float_add (Fin 1) t) 1 of
               Inl e \<Rightarrow> Inl e
             | Inr fator \<Rightarrow>
                 float_truediv (float_add (float_mul (Fin (- 0.75)) (Fin 10)) vb) fator)"
    by (simp add: valor_descontado_def split: sum.splits)
qed

text \<open>
  The comparison is the one of floats: with \<open>1e16\<close> tonnes accumulated and capacity
  \<open>1e16\<close>, a block of one tonne does not roll over, since \<open>1e16 + 1.0\<close> is \<open>1e16\<close>;
  with \<open>0.1\<close> accumulated and capacity \<open>0.3\<close>, a block of \<open>0.2\<close> does, since
  \<open>0.1 + 0.2\<close> is above \<open>0.3\<close>.
\<close>

lemma soma_absorvida:
  "float_add (Fin 10000000000000000) (Fin 1) = Fin 10000000000000000"
  "\<not> float_gt (float_add (Fin 10000000000000000) (Fin 1)) (Fin 10000000000000000)"
  "float_gt (float_add (py_float 0.1) (py_float 0.2)) (py_float 0.3)"
proof -
  have d1: "py_float (1 / 10) = Fin (3602879701896397 / 36028797018963968)"
    by (rule py_float_posI[where k = 56]) (simp_all add: e_min_def round_half_even_def Let_def)
  have d2: "py_float (1 / 5) = Fin (3602879701896397 / 18014398509481984)"
    by (rule py_float_posI[where k = 55]) (simp_all add: e_min_def round_half_even_def Let_def)
  have d3: "py_float (3 / 10) = Fin (5404319552844595 / 18014398509481984)"
    by (rule py_float_posI[where k = 54]) (simp_all add: e_min_def round_half_even_def Let_def)
  have d4: "py_float (10808639105689191 / 36028797018963968) = Fin (1351079888211149 / 4503599627370496)"
    by (rule py_float_posI[where k = 54]) (simp_all add: e_min_def round_half_even_def Let_def)
  from d1 d2 d3 d4 show "float_gt (float_add (py_float 0.1) (py_float 0.2)) (py_float 0.3)"
    by simp
  have "py_float 10000000000000001 = Fin 10000000000000000"
    by (rule py_float_bigI[where k = 1])
      (simp_all add: limiar_overflow_def round_half_even_def Let_def)
  then show "float_add (Fin 10000000000000000) (Fin 1) = Fin 10000000000000000" by simp
  then show "\<not> float_gt (float_add (Fin 10000000000000000) (Fin 1)) (Fin 10000000000000000)"
    by simp
qed

text \<open>
  The two errors of the discount: with rate \<open>- 1.0\<close> the factor of period 2 is zero, and
  with rate \<open>- 0.5\<close> the factor \<open>0.5 ** 1075\<close> of period 1076 is too small for a float
  and is \<open>0.0\<close>; the division raises. (The overflow is shown with the baseline below.)
\<close>

lemma fator_nulo:
  "valor_descontado cash (Fin (- 1)) 2 = Inl ZeroDivisionError"
  "valor_descontado cash (Fin (- 0.5)) 1076 = Inl ZeroDivisionError"
proof -
  have "float_pow (Fin 0) (Suc 0) = Inr (Fin 0)"
    using limiar_overflow_gt by (simp add: float_pow_def py_float_0)
  then show "valor_descontado cash (Fin (- 1)) 2 = Inl ZeroDivisionError"
    by (simp add: valor_descontado_def py_float_0 float_truediv_def)
  have half: "float_add (Fin 1) (Fin (- 0.5)) = Fin (1 / 2)"
    by (simp add: floats_exemplo)
  have small: "((1 / 2) ^ 1075 :: real) * 2 ^ e_min = 1 / 2"
    by (simp add: e_min_def power_divide)
  have "arredondar ((1 / 2) ^ 1075) = of_int (round_half_even ((1 / 2) ^ 1075 * 2 ^ e_min)) / 2 ^ e_min"
    by (rule arredondar_small) (simp_all add: small)
  then have "arredondar ((1 / 2) ^ 1075) = 0"
    by (simp add: small round_half_even_def Let_def)
  moreover have "((1 / 2) ^ 1075 :: real) < limiar_overflow"
  proof -
    have "((1 / 2) ^ 1075 :: real) \<le> 1" by (rule power_le_one) simp_all
    with limiar_overflow_gt show ?thesis by simp
  qed
  moreover have "(0::real) \<le> (1 / 2) ^ 1075" by simp
  moreover have "\<not> ((1 / 2) ^ 1075 :: real) \<le> - limiar_overflow"
  proof -
    have "(0::real) \<le> (1 / 2) ^ 1075" by simp
    with limiar_overflow_gt show ?thesis by (smt (verit) zero_less_power)
  qed
  ultimately have "float_pow (Fin (1 / 2)) 1075 = Inr (Fin 0)"
    by (simp add: float_pow_def py_float_def)
  with half show "valor_descontado cash (Fin (- 0.5)) 1076 = Inl ZeroDivisionError"
    by (simp add: valor_descontado_def float_truediv_def)
qed

text \<open>
  The rollover rule at the two-block model with the default rate: block 1 arrives with 10
  tonnes accumulated, 10 + 10 exceeds 15, and it is counted in period 2, its cash 0.5
  divided by the float \<open>1 + 0.15\<close>.
\<close>

theorem capacity_rollover_witness:
  "vpl_loop exemplo2 taxa_padrao (Fin 15) [0] vpl_init =
     Inr \<lparr>ano = 1, ton_acumulada = Fin 10, valor_total = Fin (- 2.5), visitados = {0}\<rparr>
   \<and> preds_dict exemplo2 0 = Some [] \<and> dest_dict exemplo2 0 = Some 1
   \<and> tonn_dict exemplo2 0 = Some (Fin 10) \<and> val_ore_dict exemplo2 0 = Some (Fin 5)
   \<and> preds_dict exemplo2 1 = Some [] \<and> dest_dict exemplo2 1 = Some 1
   \<and> tonn_dict exemplo2 1 = Some (Fin 10) \<and> val_ore_dict exemplo2 1 = Some (Fin 8)
   \<and> float_gt (float_add (Fin 10) (Fin 10)) (Fin 15)
   \<and> float_pow (float_add (Fin 1) taxa_padrao) 1 = Inr (Fin (2589569785738035 / 2 ^ 51))
   \<and> valor_descontado (Fin 0.5) taxa_padrao 2 = Inr (Fin (3916173589017823 / 2 ^ 53))
   \<and> vpl_loop exemplo2 taxa_padrao (Fin 15) ([0] @ [1]) vpl_init =
     Inr \<lparr>ano = 2, ton_acumulada = Fin 10, valor_total = Fin (- 581307017119833 / 2 ^ 48),
          visitados = {1, 0}\<rparr>
   \<and> vpl_loop exemplo2 taxa_padrao (Fin 15) [0, 1] vpl_init =
     Inr \<lparr>ano = 2, ton_acumulada = Fin 10, valor_total = Fin (- 581307017119833 / 2 ^ 48),
          visitados = {1, 0}\<rparr>"
proof -
  have a: "vpl_loop exemplo2 taxa_padrao (Fin 15) [0] vpl_init =
     Inr \<lparr>ano = 1, ton_acumulada = Fin 10, valor_total = Fin (- 2.5), visitados = {0}\<rparr>"
    by (simp add: vpl_step_def exemplo2_def vpl_init_def Let_def valor_descontado_def
        float_pow_def float_truediv_def floats_exemplo)
  have b: "preds_dict exemplo2 0 = Some []" "preds_dict exemplo2 1 = Some []"
    "dest_dict exemplo2 0 = Some 1" "dest_dict exemplo2 1 = Some 1"
    "tonn_dict exemplo2 0 = Some (Fin 10)" "tonn_dict exemplo2 1 = Some (Fin 10)"
    "val_ore_dict exemplo2 0 = Some (Fin 5)" "val_ore_dict exemplo2 1 = Some (Fin 8)"
    by (simp_all add: exemplo2_def)
  have q: "valor_descontado (Fin 0.5) taxa_padrao 2 = Inr (Fin (3916173589017823 / 2 ^ 53))"
    by (simp add: valor_descontado_def fator_periodo_2_padrao float_truediv_def floats_exemplo)
  from capacity_rollover[OF a, where b = 1 and preds = "[]" and ton = "Fin 10"
      and val = "Fin 8" and A = 0 and B = 1 and va = "Fin 5" and vb = "Fin 8"] a b q
    fator_periodo_2_padrao
  show ?thesis by (simp add: floats_exemplo numeral_2_eq_2 split: sum.splits)
qed

text \<open>The worked example, evaluated block by block.\<close>

lemma exemplo4_avaliado:
  "float_add (float_mul (Fin (- 0.75)) (Fin 10)) (Fin 5) = Fin (- 2.5)"
  "float_mul (Fin (- 0.75)) (Fin 10) = Fin (- 7.5)"
  "float_add (float_mul (Fin (- 0.75)) (Fin 10)) (Fin 8) = Fin 0.5"
  "float_add (float_mul (Fin (- 0.75)) (Fin 5)) (Fin 2) = Fin (- 1.75)"
  "valor_descontado (Fin 0.5) taxa_padrao 2 = Inr (Fin (3916173589017823 / 2 ^ 53))"
  "valor_descontado (Fin (- 1.75)) taxa_padrao 2 = Inr (Fin (- 3426651890390595 / 2 ^ 51))"
  "vpl_loop (exemplo4 v1) taxa_padrao (Fin 15) [0, 1] vpl_init =
     Inr \<lparr>ano = 1, ton_acumulada = Fin 10, valor_total = Fin (- 10), visitados = {1, 0}\<rparr>"
  "vpl_loop (exemplo4 v1) taxa_padrao (Fin 15) [0, 1, 2] vpl_init =
     Inr \<lparr>ano = 2, ton_acumulada = Fin 10, valor_total = Fin (- 2692369342449753 / 2 ^ 48),
          visitados = {2, 1, 0}\<rparr>"
  "vpl_loop (exemplo4 v1) taxa_padrao (Fin 15) [0, 1, 2, 3] vpl_init =
     Inr \<lparr>ano = 2, ton_acumulada = Fin 15, valor_total = Fin (- 6241401657497155 / 2 ^ 49),
          visitados = {3, 2, 1, 0}\<rparr>"
proof -
  show c0: "float_add (float_mul (Fin (- 0.75)) (Fin 10)) (Fin 5) = Fin (- 2.5)"
    and c1: "float_mul (Fin (- 0.75)) (Fin 10) = Fin (- 7.5)"
    and c2: "float_add (float_mul (Fin (- 0.75)) (Fin 10)) (Fin 8) = Fin 0.5"
    and c3: "float_add (float_mul (Fin (- 0.75)) (Fin 5)) (Fin 2) = Fin (- 1.75)"
    by (simp_all add: floats_exemplo)
  show q2: "valor_descontado (Fin 0.5) taxa_padrao 2 = Inr (Fin (3916173589017823 / 2 ^ 53))"
    by (simp add: valor_descontado_def fator_periodo_2_padrao float_truediv_def floats_exemplo)
  show q3: "valor_descontado (Fin (- 1.75)) taxa_padrao 2 = Inr (Fin (- 3426651890390595 / 2 ^ 51))"
    by (simp add: valor_descontado_def fator_periodo_2_padrao float_truediv_def floats_exemplo)
  have q1: "valor_descontado cash taxa_padrao (Suc 0) = float_truediv cash (Fin 1)" for cash
    by (simp add: valor_descontado_def float_pow_def)
  have s0: "vpl_step (exemplo4 v1) taxa_padrao (Fin 15) vpl_init 0 =
      Inr \<lparr>ano = 1, ton_acumulada = Fin 10, valor_total = Fin (- 2.5), visitados = {0}\<rparr>"
    using c0
    by (simp add: vpl_step_def exemplo4_def vpl_init_def Let_def q1 float_truediv_def
        floats_exemplo)
  have s1: "vpl_step (exemplo4 v1) taxa_padrao (Fin 15)
        \<lparr>ano = 1, ton_acumulada = Fin 10, valor_total = Fin (- 2.5), visitados = {0}\<rparr> 1 =
      Inr \<lparr>ano = 1, ton_acumulada = Fin 10, valor_total = Fin (- 10), visitados = {1, 0}\<rparr>"
    using c1
    by (simp add: vpl_step_def exemplo4_def Let_def q1 float_truediv_def floats_exemplo)
  have s2: "vpl_step (exemplo4 v1) taxa_padrao (Fin 15)
        \<lparr>ano = 1, ton_acumulada = Fin 10, valor_total = Fin (- 10), visitados = {1, 0}\<rparr> 2 =
      Inr \<lparr>ano = 2, ton_acumulada = Fin 10, valor_total = Fin (- 2692369342449753 / 2 ^ 48),
           visitados = {2, 1, 0}\<rparr>"
    using c2 q2
    by (simp add: vpl_step_def exemplo4_def Let_def floats_exemplo numeral_2_eq_2)
  have s3: "vpl_step (exemplo4 v1) taxa_padrao (Fin 15)
        \<lparr>ano = 2, ton_acumulada = Fin 10, valor_total = Fin (- 2692369342449753 / 2 ^ 48),
         visitados = {2, 1, 0}\<rparr> 3 =
      Inr \<lparr>ano = 2, ton_acumulada = Fin 15, valor_total = Fin (- 6241401657497155 / 2 ^ 49),
           visitados = {3, 2, 1, 0}\<rparr>"
    using c3 q3
    by (simp add: vpl_step_def exemplo4_def Let_def floats_exemplo numeral_2_eq_2)
  show "vpl_loop (exemplo4 v1) taxa_padrao (Fin 15) [0, 1] vpl_init =
     Inr \<lparr>ano = 1, ton_acumulada = Fin 10, valor_total = Fin (- 10), visitados = {1, 0}\<rparr>"
    using s0 s1 by simp
  show "vpl_loop (exemplo4 v1) taxa_padrao (Fin 15) [0, 1, 2] vpl_init =
     Inr \<lparr>ano = 2, ton_acumulada = Fin 10, valor_total = Fin (- 2692369342449753 / 2 ^ 48),
          visitados = {2, 1, 0}\<rparr>"
    using s0 s1 s2 by simp
  show "vpl_loop (exemplo4 v1) taxa_padrao (Fin 15) [0, 1, 2, 3] vpl_init =
     Inr \<lparr>ano = 2, ton_acumulada = Fin 15, valor_total = Fin (- 6241401657497155 / 2 ^ 49),
          visitados = {3, 2, 1, 0}\<rparr>"
    using s0 s1 s2 s3 by simp
qed

text \<open>
  The worked example as the specification states it does not hold: block 2 has cash
  \<open>- 0.75 * 10 + 8 = 0.5\<close>, not 0.25, and the total is the float nearest to
  \<open>- 255 / 23\<close>, about \<open>- 11.087\<close>, more than 0.2 away from \<open>- 11.304\<close>.
\<close>

theorem worked_example_counterexample:
  "float_add (float_mul (Fin (- 0.75)) (Fin 10)) (Fin 8) = Fin 0.5
   \<and> calcular_vpl (exemplo4 (Fin 0)) [0, 1, 2, 3] taxa_padrao (Fin 15)
     = Inr (Fin (- 6241401657497155 / 2 ^ 49))
   \<and> \<bar>(- 6241401657497155 / 2 ^ 49) - (- 11.304)\<bar> > (0.2 :: real)"
  using exemplo4_avaliado(3) exemplo4_avaliado(9)[of "Fin 0"]
  by (simp add: calcular_vpl_def)

text \<open>
  Claim C5, amended. On the four-block example with capacity 15 and the default rate, the
  sequence \<open>[0, 1, 2, 3]\<close> gives: blocks 0 and 1 in period 1 with cash \<open>- 2.5\<close> and
  \<open>- 7.5\<close> (total \<open>- 10\<close>); block 2 rolls over to period 2 with cash \<open>0.5\<close>; block 3
  stays in period 2 (accumulated 15, not above 15) with cash \<open>- 1.75\<close>. The total is
  a float within \<open>1e-15\<close> of \<open>- 10 + (0.5 - 1.75) / 1.15\<close>, about \<open>- 11.087\<close>. The ore
  value of the waste block 1 does not matter.
\<close>

theorem worked_example:
  "float_add (float_mul (Fin (- 0.75)) (Fin 10)) (Fin 5) = Fin (- 2.5)
   \<and> float_mul (Fin (- 0.75)) (Fin 10) = Fin (- 7.5)
   \<and> vpl_loop (exemplo4 v1) taxa_padrao (Fin 15) [0, 1] vpl_init =
     Inr \<lparr>ano = 1, ton_acumulada = Fin 10, valor_total = Fin (- 10), visitados = {1, 0}\<rparr>
   \<and> float_add (float_mul (Fin (- 0.75)) (Fin 10)) (Fin 8) = Fin 0.5
   \<and> valor_descontado (Fin 0.5) taxa_padrao 2 = Inr (Fin (3916173589017823 / 2 ^ 53))
   \<and> vpl_loop (exemplo4 v1) taxa_padrao (Fin 15) [0, 1, 2] vpl_init =
     Inr \<lparr>ano = 2, ton_acumulada = Fin 10, valor_total = Fin (- 2692369342449753 / 2 ^ 48),
          visitados = {2, 1, 0}\<rparr>
   \<and> float_add (float_mul (Fin (- 0.75)) (Fin 5)) (Fin 2) = Fin (- 1.75)
   \<and> valor_descontado (Fin (- 1.75)) taxa_padrao 2 = Inr (Fin (- 3426651890390595 / 2 ^ 51))
   \<and> vpl_loop (exemplo4 v1) taxa_padrao (Fin 15) [0, 1, 2, 3] vpl_init =
     Inr \<lparr>ano = 2, ton_acumulada = Fin 15, valor_total = Fin (- 6241401657497155 / 2 ^ 49),
          visitados = {3, 2, 1, 0}\<rparr>
   \<and> calcular_vpl (exemplo4 v1) [0, 1, 2, 3] taxa_padrao (Fin 15)
     = Inr (Fin (- 6241401657497155 / 2 ^ 49))
   \<and> \<bar>(- 6241401657497155 / 2 ^ 49) - (- 10 + (0.5 - 1.75) / 1.15)\<bar> < (1 / 10 ^ 15 :: real)
   \<and> \<bar>(- 6241401657497155 / 2 ^ 49) - (- 11.087)\<bar> < (0.001 :: real)"
  using exemplo4_avaliado(1-6) exemplo4_avaliado(7-9)[of v1]
  by (simp add: calcular_vpl_def)

text \<open>
  Claim C6. After any prefix \<open>xs\<close> of a sequence has been evaluated, from the initial
  state, into state \<open>st\<close>:
  a block \<open>b\<close> with a predecessor that is not yet counted leaves the state as it is (no
  cash, same period, same accumulated tonnage, not marked counted), so the rest of the
  sequence is evaluated from \<open>st\<close>; a waste block \<open>w\<close> (destination other than 1) whose
  predecessors are counted adds \<open>- 0.75 * tonnage\<close>, discounted with the current period,
  and leaves the period and the accumulated ore tonnage unchanged. It cannot raise: the
  factor of the current period was computed before and is not zero.
\<close>

theorem skip_and_waste:
  assumes "vpl_loop inst t c xs vpl_init = Inr st"
  shows "(preds_dict inst b = Some preds \<and> \<not> set preds \<subseteq> visitados st \<longrightarrow>
            vpl_loop inst t c (xs @ [b]) vpl_init = Inr st
            \<and> vpl_loop inst t c (xs @ b # ys) vpl_init = vpl_loop inst t c ys st)
       \<and> (preds_dict inst w = Some wpreds \<and> set wpreds \<subseteq> visitados st \<and>
          dest_dict inst w = Some d \<and> d \<noteq> 1 \<and>
          tonn_dict inst w = Some ton \<and> val_ore_dict inst w = Some val \<longrightarrow>
            (\<exists>q. valor_descontado (float_mul (Fin (- 0.75)) ton) t (ano st) = Inr q
               \<and> vpl_loop inst t c (xs @ [w]) vpl_init =
                   Inr \<lparr>ano = ano st, ton_acumulada = ton_acumulada st,
                        valor_total = float_add (valor_total st) q,
                        visitados = insert w (visitados st)\<rparr>))"
proof (intro conjI impI)
  assume "preds_dict inst b = Some preds \<and> \<not> set preds \<subseteq> visitados st"
  then have "vpl_step inst t c st b = Inr st" by (simp add: vpl_step_skip)
  with assms show "vpl_loop inst t c (xs @ [b]) vpl_init = Inr st"
    and "vpl_loop inst t c (xs @ b # ys) vpl_init = vpl_loop inst t c ys st"
    by (simp_all add: vpl_loop_append)
next
  assume h: "preds_dict inst w = Some wpreds \<and> set wpreds \<subseteq> visitados st \<and>
          dest_dict inst w = Some d \<and> d \<noteq> 1 \<and>
          tonn_dict inst w = Some ton \<and> val_ore_dict inst w = Some val"
  from vpl_loop_valor_descontado[OF assms] obtain q where
    q: "valor_descontado (float_mul (Fin (- 0.75)) ton) t (ano st) = Inr q" by blast
  from h have "vpl_step inst t c st w =
     (case valor_descontado (float_mul (Fin (- 0.75)) ton) t (ano st) of
        Inl e \<Rightarrow> Inl e
      | Inr q \<Rightarrow>
          Inr \<lparr>ano = ano st, ton_acumulada = ton_acumulada st,
               valor_total = float_add (valor_total st) q,
               visitados = insert w (visitados st)\<rparr>)"
    using vpl_step_waste[of inst w wpreds st d ton val t c] by blast
  with q assms have "vpl_loop inst t c (xs @ [w]) vpl_init =
                   Inr \<lparr>ano = ano st, ton_acumulada = ton_acumulada st,
                        valor_total = float_add (valor_total st) q,
                        visitados = insert w (visitados st)\<rparr>"
    by (simp add: vpl_loop_append)
  with q show "\<exists>q. valor_descontado (float_mul (Fin (- 0.75)) ton) t (ano st) = Inr q
               \<and> vpl_loop inst t c (xs @ [w]) vpl_init =
                   Inr \<lparr>ano = ano st, ton_acumulada = ton_acumulada st,
                        valor_total = float_add (valor_total st) q,
                        visitados = insert w (visitados st)\<rparr>"
    by blast
qed

text \<open>
  In the four-block example after \<open>[0]\<close>: block 3 (predecessors 1 and 2) is skipped, and
  the waste block 1 costs 7.5 in period 1 without touching the accumulated 10 tonnes.
\<close>

theorem skip_and_waste_witness:
  "vpl_loop (exemplo4 (Fin 0)) taxa_padrao (Fin 15) [0] vpl_init =
     Inr \<lparr>ano = 1, ton_acumulada = Fin 10, valor_total = Fin (- 2.5), visitados = {0}\<rparr>
   \<and> preds_dict (exemplo4 (Fin 0)) 3 = Some [1, 2] \<and> \<not> set [1, 2] \<subseteq> {0 :: int}
   \<and> vpl_loop (exemplo4 (Fin 0)) taxa_padrao (Fin 15) ([0] @ [3]) vpl_init =
     Inr \<lparr>ano = 1, ton_acumulada = Fin 10, valor_total = Fin (- 2.5), visitados = {0}\<rparr>
   \<and> vpl_loop (exemplo4 (Fin 0)) taxa_padrao (Fin 15) ([0] @ 3 # [1]) vpl_init =
     vpl_loop (exemplo4 (Fin 0)) taxa_padrao (Fin 15) [1]
       \<lparr>ano = 1, ton_acumulada = Fin 10, valor_total = Fin (- 2.5), visitados = {0}\<rparr>
   \<and> preds_dict (exemplo4 (Fin 0)) 1 = Some [0] \<and> dest_dict (exemplo4 (Fin 0)) 1 = Some 2
   \<and> tonn_dict (exemplo4 (Fin 0)) 1 = Some (Fin 10)
   \<and> val_ore_dict (exemplo4 (Fin 0)) 1 = Some (Fin 0)
   \<and> valor_descontado (float_mul (Fin (- 0.75)) (Fin 10)) taxa_padrao 1 = Inr (Fin (- 7.5))
   \<and> vpl_loop (exemplo4 (Fin 0)) taxa_padrao (Fin 15) ([0] @ [1]) vpl_init =
     Inr \<lparr>ano = 1, ton_acumulada = Fin 10, valor_total = Fin (- 10), visitados = {1, 0}\<rparr>"
proof -
  have a: "vpl_loop (exemplo4 (Fin 0)) taxa_padrao (Fin 15) [0] vpl_init =
     Inr \<lparr>ano = 1, ton_acumulada = Fin 10, valor_total = Fin (- 2.5), visitados = {0}\<rparr>"
    by (simp add: vpl_step_def exemplo4_def vpl_init_def Let_def valor_descontado_def
        float_pow_def float_truediv_def floats_exemplo)
  have b: "preds_dict (exemplo4 (Fin 0)) 3 = Some [1, 2]"
    "preds_dict (exemplo4 (Fin 0)) 1 = Some [0]"
    "dest_dict (exemplo4 (Fin 0)) 1 = Some 2" "tonn_dict (exemplo4 (Fin 0)) 1 = Some (Fin 10)"
    "val_ore_dict (exemplo4 (Fin 0)) 1 = Some (Fin 0)"
    by (simp_all add: exemplo4_def)
  have q: "valor_descontado (float_mul (Fin (- 0.75)) (Fin 10)) taxa_padrao 1 = Inr (Fin (- 7.5))"
    by (simp add: valor_descontado_def float_pow_def float_truediv_def floats_exemplo)
  from skip_and_waste[OF a, where b = 3 and preds = "[1, 2]" and ys = "[1]" and w = 1
      and wpreds = "[0]" and d = 2 and ton = "Fin 10" and val = "Fin 0"] a b q
  show ?thesis
    by (auto simp: floats_exemplo)
qed

section \<open>Properties of the repair\<close>

lemma inst_ok_preds:
  assumes "inst_ok inst" and "b \<in> set (ids inst)"
  shows "\<exists>ps. preds_dict inst b = Some ps \<and> set ps \<subseteq> set (ids inst)"
proof -
  from assms have "case preds_dict inst b of None \<Rightarrow> False
                   | Some ps \<Rightarrow> list_all (\<lambda>p. p \<in> set (ids inst)) ps"
    unfolding inst_ok_def list_all_iff by blast
  then show ?thesis
    by (cases "preds_dict inst b") (auto simp: list_all_iff)
qed

lemma reparar_preds_inv:
  "vis = set sc \<Longrightarrow> distinct sc \<Longrightarrow>
   snd (reparar_preds ps (sc, vis)) = set (fst (reparar_preds ps (sc, vis)))
   \<and> distinct (fst (reparar_preds ps (sc, vis)))
   \<and> set (fst (reparar_preds ps (sc, vis))) = set sc \<union> set ps"
proof (induction ps arbitrary: sc vis)
  case Nil
  then show ?case by simp
next
  case (Cons p ps)
  show ?case
  proof (cases "p \<in> vis")
    case True
    with Cons.IH[OF Cons.prems] Cons.prems show ?thesis by auto
  next
    case False
    with Cons.prems have "insert p vis = set (sc @ [p])" "distinct (sc @ [p])" by auto
    from Cons.IH[OF this] False show ?thesis by auto
  qed
qed

lemma reparar_preds_noop: "set ps \<subseteq> vis \<Longrightarrow> reparar_preds ps (sc, vis) = (sc, vis)"
  by (induction ps) auto

lemma reparar_loop_inv:
  "reparar_loop inst bs (sc, vis) = Inr (sc', vis') \<Longrightarrow> vis = set sc \<Longrightarrow> distinct sc \<Longrightarrow>
   vis' = set sc' \<and> distinct sc' \<and>
   set sc' = set sc \<union> set bs \<union> (\<Union>b \<in> set bs. set (preds_of inst b))"
proof (induction bs arbitrary: sc vis)
  case Nil
  then show ?case by auto
next
  case (Cons b bs)
  from Cons.prems(1) obtain ps where ps: "preds_dict inst b = Some ps"
    by (auto split: option.splits)
  obtain sc1 vis1 where r1: "reparar_preds ps (sc, vis) = (sc1, vis1)"
    by (cases "reparar_preds ps (sc, vis)")
  from reparar_preds_inv[OF Cons.prems(2,3), of ps] r1
  have i1: "vis1 = set sc1" "distinct sc1" "set sc1 = set sc \<union> set ps" by auto
  have pb: "set (preds_of inst b) = set ps" using ps by (simp add: preds_of_def)
  show ?case
  proof (cases "b \<in> vis1")
    case True
    with Cons.prems(1) ps r1 have "reparar_loop inst bs (sc1, vis1) = Inr (sc', vis')"
      by simp
    from Cons.IH[OF this i1(1,2)]
    have a: "vis' = set sc'" "distinct sc'"
      and b: "set sc' = set sc1 \<union> set bs \<union> (\<Union>b \<in> set bs. set (preds_of inst b))"
      by blast+
    from b True i1 pb
    have "set sc' = set sc \<union> set (b # bs) \<union> (\<Union>b \<in> set (b # bs). set (preds_of inst b))"
      by auto
    with a show ?thesis by blast
  next
    case False
    with Cons.prems(1) ps r1
    have "reparar_loop inst bs (sc1 @ [b], insert b vis1) = Inr (sc', vis')"
      by simp
    moreover have "insert b vis1 = set (sc1 @ [b])" "distinct (sc1 @ [b])"
      using False i1 by auto
    ultimately
    have a: "vis' = set sc'" "distinct sc'"
      and b: "set sc' = set (sc1 @ [b]) \<union> set bs \<union> (\<Union>b \<in> set bs. set (preds_of inst b))"
      using Cons.IH[of "sc1 @ [b]" "insert b vis1"] by blast+
    from b i1 pb
    have "set sc' = set sc \<union> set (b # bs) \<union> (\<Union>b \<in> set (b # bs). set (preds_of inst b))"
      by auto
    with a show ?thesis by blast
  qed
qed

lemma reparar_loop_total:
  "\<forall>b \<in> set bs. preds_dict inst b \<noteq> None \<Longrightarrow> \<exists>r. reparar_loop inst bs st = Inr r"
proof (induction bs arbitrary: st)
  case Nil
  then show ?case by simp
next
  case (Cons b bs)
  then obtain ps where ps: "preds_dict inst b = Some ps" by auto
  obtain sc vis where r: "reparar_preds ps st = (sc, vis)"
    by (cases "reparar_preds ps st")
  from Cons.prems have "\<forall>b \<in> set bs. preds_dict inst b \<noteq> None" by simp
  from Cons.IH[OF this] ps r show ?case by simp
qed

lemma reparar_loop_feasible:
  "verificar_loop inst r vis = Inr True \<Longrightarrow> distinct r \<Longrightarrow> set r \<inter> vis = {} \<Longrightarrow>
   reparar_loop inst r (sc, vis) = Inr (sc @ r, vis \<union> set r)"
proof (induction r arbitrary: sc vis)
  case Nil
  then show ?case by simp
next
  case (Cons b r)
  from Cons.prems(1) obtain ps where ps: "preds_dict inst b = Some ps"
    by (auto split: option.splits)
  with Cons.prems(1) have sub: "set ps \<subseteq> vis" and rest: "verificar_loop inst r (insert b vis) = Inr True"
    by (auto simp: list_ex_iff split: if_splits)
  from Cons.prems(2,3) have "distinct r" "set r \<inter> insert b vis = {}" "b \<notin> vis" by auto
  from Cons.IH[OF rest this(1,2), of "sc @ [b]"] ps sub \<open>b \<notin> vis\<close> show ?case
    by (simp add: reparar_preds_noop)
qed

lemma reparar_solucao_permutacao:
  assumes "inst_ok inst" and "permutacao inst s"
  shows "\<exists>r. reparar_solucao inst s = Inr r \<and> permutacao inst r \<and> mset r = mset s"
proof -
  have dom: "\<forall>b \<in> set s. preds_dict inst b \<noteq> None"
  proof
    fix b assume "b \<in> set s"
    with assms(2) have "b \<in> set (ids inst)" by (simp add: permutacao_def)
    from inst_ok_preds[OF assms(1) this] show "preds_dict inst b \<noteq> None" by auto
  qed
  from reparar_loop_total[OF dom, of "([], {})"] obtain sc vis where
    r: "reparar_loop inst s ([], {}) = Inr (sc, vis)" by (metis surj_pair)
  from reparar_loop_inv[OF r] have d: "distinct sc"
    and st: "set sc = set s \<union> (\<Union>b \<in> set s. set (preds_of inst b))" by auto
  have "(\<Union>b \<in> set s. set (preds_of inst b)) \<subseteq> set (ids inst)"
  proof (intro UN_least)
    fix b assume "b \<in> set s"
    with assms(2) have "b \<in> set (ids inst)" by (simp add: permutacao_def)
    from inst_ok_preds[OF assms(1) this] show "set (preds_of inst b) \<subseteq> set (ids inst)"
      by (auto simp: preds_of_def)
  qed
  with st assms(2) have "set sc = set s" by (auto simp: permutacao_def)
  with d assms(2) have "permutacao inst sc" "mset sc = mset s"
    using set_eq_iff_mset_eq_distinct[of sc s] by (auto simp: permutacao_def)
  with r show ?thesis by (simp add: reparar_solucao_def)
qed

text \<open>
  Claim C2. On a loaded model, the repair of a permutation of the id set returns (no
  lookup fails, and the two loops run over finite lists), and what it returns is again a
  permutation of the id set: every id exactly once, the same multiset as the input.
\<close>

theorem repair_permutation:
  assumes "inst_ok inst" and "permutacao inst s"
  shows "\<exists>r. reparar_solucao inst s = Inr r \<and> permutacao inst r \<and> mset r = mset s"
  using assms by (rule reparar_solucao_permutacao)

text \<open>The chain of three blocks and the reversed order \<open>[2, 1, 0]\<close>.\<close>

theorem repair_permutation_witness:
  "inst_ok cadeia3 \<and> permutacao cadeia3 [2, 1, 0]
   \<and> (\<exists>r. reparar_solucao cadeia3 [2, 1, 0] = Inr r \<and> permutacao cadeia3 r
          \<and> mset r = mset [2, 1, 0])"
proof -
  have a: "inst_ok cadeia3" by (simp add: inst_ok_def cadeia3_def preds_of_def)
  have b: "permutacao cadeia3 [2, 1, 0]" by (auto simp add: permutacao_def cadeia3_def)
  from repair_permutation[OF a b] a b show ?thesis by simp
qed

text \<open>
  Repair is not idempotent. On the chain 0, 1, 2 the order \<open>[2, 1, 0]\<close> is repaired to
  \<open>[1, 2, 0]\<close>: block 1 is injected before 2 without its own predecessor 0. Repairing
  \<open>[1, 2, 0]\<close> gives \<open>[0, 1, 2]\<close>.
\<close>

theorem repair_idempotent_counterexample:
  "inst_ok cadeia3 \<and> permutacao cadeia3 [2, 1, 0]
   \<and> reparar_solucao cadeia3 [2, 1, 0] = Inr [1, 2, 0]
   \<and> reparar_solucao cadeia3 [1, 2, 0] = Inr [0, 1, 2]
   \<and> reparar_solucao cadeia3 [1, 2, 0] \<noteq> reparar_solucao cadeia3 [2, 1, 0]"
  by (auto simp add: inst_ok_def permutacao_def cadeia3_def reparar_solucao_def preds_of_def)

text \<open>
  Claim C1, amended. Whenever the repaired sequence passes the feasibility check,
  repairing it again returns it unchanged.
\<close>

theorem repair_idempotent_if_feasible:
  assumes "reparar_solucao inst s = Inr r" and "verificar_factibilidade inst r = Inr True"
  shows "reparar_solucao inst r = Inr r"
proof -
  from assms(1) obtain vis where r: "reparar_loop inst s ([], {}) = Inr (r, vis)"
    by (auto simp: reparar_solucao_def split: sum.splits)
  from reparar_loop_inv[OF r] have "distinct r" by simp
  with reparar_loop_feasible[of inst r "{}" "[]"] assms(2) show ?thesis
    by (simp add: reparar_solucao_def verificar_factibilidade_def)
qed

text \<open>In the four-block example, \<open>[1, 0, 2, 3]\<close> is repaired to the feasible \<open>[0, 1, 2, 3]\<close>.\<close>

theorem repair_idempotent_if_feasible_witness:
  "reparar_solucao (exemplo4 (Fin 0)) [1, 0, 2, 3] = Inr [0, 1, 2, 3]
   \<and> verificar_factibilidade (exemplo4 (Fin 0)) [0, 1, 2, 3] = Inr True
   \<and> reparar_solucao (exemplo4 (Fin 0)) [0, 1, 2, 3] = Inr [0, 1, 2, 3]"
proof -
  have a: "reparar_solucao (exemplo4 (Fin 0)) [1, 0, 2, 3] = Inr [0, 1, 2, 3]"
    by (simp add: exemplo4_def reparar_solucao_def)
  have b: "verificar_factibilidade (exemplo4 (Fin 0)) [0, 1, 2, 3] = Inr True"
    by (simp add: exemplo4_def verificar_factibilidade_def)
  from repair_idempotent_if_feasible[OF a b] a b show ?thesis by simp
qed


section \<open>Properties of the baseline\<close>

lemma inst_ok_unfold:
  assumes "inst_ok inst" and "b \<in> set (ids inst)"
  shows "(case preds_dict inst b of
           None \<Rightarrow> False
         | Some ps \<Rightarrow> list_all (\<lambda>p. p \<in> set (ids inst)) ps)
        \<and> (case succs_dict inst b of
             None \<Rightarrow> False
           | Some ss \<Rightarrow> set ss = set (filter (\<lambda>c. b \<in> set (preds_of inst c)) (ids inst)))
        \<and> tonn_dict inst b \<noteq> None \<and> dest_dict inst b \<noteq> None \<and> val_ore_dict inst b \<noteq> None"
  using assms unfolding inst_ok_def list_all_iff by blast

lemma inst_ok_succs:
  assumes "inst_ok inst" and "b \<in> set (ids inst)"
  shows "\<exists>ss. succs_dict inst b = Some ss
           \<and> set ss = {c \<in> set (ids inst). b \<in> set (preds_of inst c)}"
proof -
  from inst_ok_unfold[OF assms]
  have "case succs_dict inst b of
             None \<Rightarrow> False
           | Some ss \<Rightarrow> set ss = set (filter (\<lambda>c. b \<in> set (preds_of inst c)) (ids inst))"
    by blast
  then show ?thesis by (cases "succs_dict inst b") auto
qed

lemma inst_ok_attrs:
  assumes "inst_ok inst" and "b \<in> set (ids inst)"
  shows "\<exists>ton d val. tonn_dict inst b = Some ton \<and> dest_dict inst b = Some d
           \<and> val_ore_dict inst b = Some val"
  using inst_ok_unfold[OF assms] by auto

lemma preds_of_ids:
  assumes "inst_ok inst" and "b \<in> set (ids inst)"
  shows "preds_dict inst b = Some (preds_of inst b)" and "set (preds_of inst b) \<subseteq> set (ids inst)"
  using inst_ok_preds[OF assms] by (auto simp: preds_of_def)

lemma verificar_loop_snoc:
  "verificar_loop inst xs V = Inr True \<Longrightarrow> preds_dict inst b = Some ps \<Longrightarrow>
   set ps \<subseteq> V \<union> set xs \<Longrightarrow> verificar_loop inst (xs @ [b]) V = Inr True"
proof (induction xs arbitrary: V)
  case Nil
  then show ?case by (auto simp: list_ex_iff)
next
  case (Cons x xs)
  from Cons.prems(1) obtain qs where qs: "preds_dict inst x = Some qs"
    by (auto split: option.splits)
  with Cons.prems(1) have nx: "\<not> list_ex (\<lambda>pred. pred \<notin> V) qs"
    and rest: "verificar_loop inst xs (insert x V) = Inr True"
    by (auto split: if_splits)
  from Cons.prems(3) have "set ps \<subseteq> insert x V \<union> set xs" by auto
  from Cons.IH[OF rest Cons.prems(2) this] qs nx show ?case by simp
qed

lemma init_preds_restantes_ok:
  "\<forall>b \<in> set bs. preds_dict inst b \<noteq> None \<Longrightarrow>
   \<exists>pr'. init_preds_restantes inst bs pr = Inr pr'
     \<and> (\<forall>c. pr' c = (if c \<in> set bs then Some (set (preds_of inst c)) else pr c))"
proof (induction bs arbitrary: pr)
  case Nil
  then show ?case by simp
next
  case (Cons b bs)
  then obtain ps where ps: "preds_dict inst b = Some ps" by auto
  from Cons.prems have "\<forall>b \<in> set bs. preds_dict inst b \<noteq> None" by simp
  from Cons.IH[OF this, of "pr(b \<mapsto> set ps)"] obtain pr' where
    r: "init_preds_restantes inst bs (pr(b \<mapsto> set ps)) = Inr pr'"
    and v: "\<forall>c. pr' c = (if c \<in> set bs then Some (set (preds_of inst c))
                          else (pr(b \<mapsto> set ps)) c)"
    by blast
  from v ps have "\<forall>c. pr' c = (if c \<in> set (b # bs) then Some (set (preds_of inst c)) else pr c)"
    by (auto simp: preds_of_def)
  with r ps show ?case by simp
qed

lemma discard_succs_ok:
  "\<forall>s \<in> set ss. pr s \<noteq> None \<Longrightarrow>
   \<exists>pr'. discard_succs b ss pr = Inr pr'
     \<and> (\<forall>c. pr' c = (if c \<in> set ss then map_option (\<lambda>ps. ps - {b}) (pr c) else pr c))"
proof (induction ss arbitrary: pr)
  case Nil
  then show ?case by simp
next
  case (Cons s ss)
  then obtain ps where ps: "pr s = Some ps" by auto
  from Cons.prems have "\<forall>x \<in> set ss. (pr(s \<mapsto> ps - {b})) x \<noteq> None" by simp
  from Cons.IH[OF this] obtain pr' where
    r: "discard_succs b ss (pr(s \<mapsto> ps - {b})) = Inr pr'"
    and v: "\<forall>c. pr' c = (if c \<in> set ss then map_option (\<lambda>ps. ps - {b}) ((pr(s \<mapsto> ps - {b})) c)
                          else (pr(s \<mapsto> ps - {b})) c)"
    by blast
  from v ps have "\<forall>c. pr' c = (if c \<in> set (s # ss) then map_option (\<lambda>ps. ps - {b}) (pr c)
                                else pr c)"
    by auto
  with r ps show ?case by simp
qed

lemma set_dict_keys: "set (dict_keys xs) = set xs"
  by (simp add: dict_keys_def)

lemma random_choice_mem:
  "seq \<noteq> [] \<Longrightarrow> \<exists>x g'. random_choice seq g = Inr (x, g') \<and> x \<in> set seq"
  by (simp add: random_choice_def randbelow_def)

lemma baseline_loop_inv:
  assumes ok: "inst_ok inst"
  shows "baseline_inv inst vis ordem pr \<Longrightarrow>
    \<exists>ordem'. baseline_loop inst vis ordem pr g = Inr ordem'
      \<and> distinct ordem' \<and> set ordem' \<subseteq> set (ids inst)
      \<and> verificar_loop inst ordem' {} = Inr True
      \<and> (length (ids inst) \<le> length ordem'
         \<or> (\<forall>b \<in> set (ids inst) - set ordem'. \<not> set (preds_of inst b) \<subseteq> set ordem'))"
proof (induction "length (ids inst) - length ordem" arbitrary: vis ordem pr g rule: less_induct)
  case less
  note inv = less.prems
  from inv have vis: "vis = set ordem" and dis: "distinct ordem"
    and sub: "set ordem \<subseteq> set (ids inst)"
    and prv: "\<And>c. c \<in> set (ids inst) \<Longrightarrow> pr c = Some (set (preds_of inst c) - vis)"
    and feas: "verificar_loop inst ordem {} = Inr True"
    by (auto simp: baseline_inv_def)
  show ?case
  proof (cases "length ordem < length (ids inst)")
    case False
    then have "baseline_loop inst vis ordem pr g = Inr ordem"
      by (subst baseline_loop.simps) simp
    with False dis sub feas show ?thesis by auto
  next
    case True
    define livres where
      "livres = filter (\<lambda>b. (case pr b of None \<Rightarrow> False | Some ps \<Rightarrow> ps = {}) \<and> b \<notin> vis)
                  (dict_keys (ids inst))"
    show ?thesis
    proof (cases "livres = []")
      case True
      with \<open>length ordem < length (ids inst)\<close>
      have r: "baseline_loop inst vis ordem pr g = Inr ordem"
        by (subst baseline_loop.simps) (simp add: Let_def livres_def[symmetric])
      have "\<not> set (preds_of inst b) \<subseteq> set ordem" if b: "b \<in> set (ids inst) - set ordem" for b
      proof
        assume "set (preds_of inst b) \<subseteq> set ordem"
        with prv[of b] b vis have "pr b = Some {}" by auto
        with b vis have "b \<in> set livres" by (simp add: livres_def set_dict_keys)
        with True show False by simp
      qed
      with r dis sub feas show ?thesis by auto
    next
      case False
      from random_choice_mem[OF False, of g] obtain b g' where
        ch: "random_choice livres g = Inr (b, g')" and bl: "b \<in> set livres" by blast
      from bl have bid: "b \<in> set (ids inst)" and bnv: "b \<notin> vis"
        and pb: "(case pr b of None \<Rightarrow> False | Some ps \<Rightarrow> ps = {})"
        by (auto simp: livres_def set_dict_keys)
      from pb prv[OF bid] have psub: "set (preds_of inst b) \<subseteq> vis" by auto
      from inst_ok_succs[OF ok bid] obtain ss where
        ss: "succs_dict inst b = Some ss"
        and sset: "set ss = {c \<in> set (ids inst). b \<in> set (preds_of inst c)}" by blast
      have "\<forall>s \<in> set ss. pr s \<noteq> None" using sset prv by auto
      from discard_succs_ok[OF this, of b] obtain pr' where
        ds: "discard_succs b ss pr = Inr pr'"
        and pr': "\<And>c. pr' c = (if c \<in> set ss then map_option (\<lambda>ps. ps - {b}) (pr c) else pr c)"
        by blast
      have prv': "pr' c = Some (set (preds_of inst c) - insert b vis)"
        if c: "c \<in> set (ids inst)" for c
      proof (cases "c \<in> set ss")
        case True
        with pr'[of c] prv[OF c] show ?thesis by auto
      next
        case False
        with sset c have "b \<notin> set (preds_of inst c)" by simp
        with False pr'[of c] prv[OF c] show ?thesis by auto
      qed
      have feas': "verificar_loop inst (ordem @ [b]) {} = Inr True"
        using verificar_loop_snoc[OF feas preds_of_ids(1)[OF ok bid]] psub vis by simp
      have inv': "baseline_inv inst (insert b vis) (ordem @ [b]) pr'"
        using vis dis sub bid bnv prv' feas' by (simp add: baseline_inv_def)
      have meas: "length (ids inst) - length (ordem @ [b]) < length (ids inst) - length ordem"
        using True by simp
      have step: "baseline_loop inst vis ordem pr g =
                  baseline_loop inst (insert b vis) (ordem @ [b]) pr' g'"
        using True False ch ss ds
        by (subst baseline_loop.simps) (simp add: Let_def livres_def[symmetric])
      from less.hyps[OF meas inv', of g'] step show ?thesis by simp
    qed
  qed
qed

text \<open>
  Evaluation with the default rate and capacity on a loaded model: the dictionary reads
  succeed, and the only error left is the overflow of the discount factor, which needs a
  period beyond 5079.
\<close>

lemma vpl_step_padrao_ok:
  assumes "inst_ok inst" and "b \<in> set (ids inst)" and "ano st \<le> 5078"
  shows "\<exists>st'. vpl_step inst taxa_padrao c st b = Inr st' \<and> ano st' \<le> ano st + 1"
proof -
  from inst_ok_attrs[OF assms(1,2)] obtain ton d val where
    at: "tonn_dict inst b = Some ton" "dest_dict inst b = Some d" "val_ore_dict inst b = Some val"
    by blast
  note pr = preds_of_ids(1)[OF assms(1,2)]
  show ?thesis
  proof (cases "list_all (\<lambda>p. p \<in> visitados st) (preds_of inst b)")
    case False
    with pr show ?thesis by (simp add: vpl_step_def)
  next
    case True
    define cash where "cash = (if d = 1 then float_add (float_mul (Fin (- 0.75)) ton) val
                               else float_mul (Fin (- 0.75)) ton)"
    define a' where "a' = (if d = 1 \<and> float_gt (float_add (ton_acumulada st) ton) c
                           then ano st + 1 else ano st)"
    have "a' \<le> 5079" using assms(3) by (simp add: a'_def)
    from valor_descontado_padrao_ok[OF this] obtain q where
      q: "valor_descontado cash taxa_padrao a' = Inr q" by blast
    have "a' \<le> ano st + 1" by (simp add: a'_def)
    with pr True at q show ?thesis
      by (simp add: vpl_step_def Let_def cash_def[symmetric] a'_def[symmetric])
  qed
qed

lemma vpl_step_padrao_cases:
  assumes "inst_ok inst" and "b \<in> set (ids inst)"
  shows "vpl_step inst taxa_padrao c st b = Inl OverflowError
         \<or> (\<exists>st'. vpl_step inst taxa_padrao c st b = Inr st')"
proof -
  from inst_ok_attrs[OF assms] obtain ton d val where
    at: "tonn_dict inst b = Some ton" "dest_dict inst b = Some d" "val_ore_dict inst b = Some val"
    by blast
  note pr = preds_of_ids(1)[OF assms]
  show ?thesis
  proof (cases "list_all (\<lambda>p. p \<in> visitados st) (preds_of inst b)")
    case False
    with pr show ?thesis by (simp add: vpl_step_def)
  next
    case True
    define cash where "cash = (if d = 1 then float_add (float_mul (Fin (- 0.75)) ton) val
                               else float_mul (Fin (- 0.75)) ton)"
    define a' where "a' = (if d = 1 \<and> float_gt (float_add (ton_acumulada st) ton) c
                           then ano st + 1 else ano st)"
    from valor_descontado_padrao_cases[of cash a']
    show ?thesis
    proof
      assume "valor_descontado cash taxa_padrao a' = Inl OverflowError"
      with pr True at show ?thesis
        by (simp add: vpl_step_def Let_def cash_def[symmetric] a'_def[symmetric])
    next
      assume "\<exists>q. valor_descontado cash taxa_padrao a' = Inr q"
      then obtain q where "valor_descontado cash taxa_padrao a' = Inr q" by blast
      with pr True at show ?thesis
        by (simp add: vpl_step_def Let_def cash_def[symmetric] a'_def[symmetric])
    qed
  qed
qed

lemma vpl_loop_padrao_ok:
  assumes "inst_ok inst"
  shows "set xs \<subseteq> set (ids inst) \<Longrightarrow> ano st + length xs \<le> 5079 \<Longrightarrow>
         \<exists>st'. vpl_loop inst taxa_padrao c xs st = Inr st'"
proof (induction xs arbitrary: st)
  case Nil
  then show ?case by simp
next
  case (Cons b xs)
  then have b: "b \<in> set (ids inst)" and a: "ano st \<le> 5078" by simp_all
  from vpl_step_padrao_ok[OF assms b a, of c] obtain st1 where
    s: "vpl_step inst taxa_padrao c st b = Inr st1" and a1: "ano st1 \<le> ano st + 1" by blast
  from Cons.prems have "set xs \<subseteq> set (ids inst)" by simp
  moreover from a1 Cons.prems(2) have "ano st1 + length xs \<le> 5079" by simp
  ultimately obtain st' where "vpl_loop inst taxa_padrao c xs st1 = Inr st'"
    using Cons.IH by blast
  with s show ?case by simp
qed

lemma vpl_loop_padrao_cases:
  assumes "inst_ok inst"
  shows "set xs \<subseteq> set (ids inst) \<Longrightarrow>
         vpl_loop inst taxa_padrao c xs st = Inl OverflowError
         \<or> (\<exists>st'. vpl_loop inst taxa_padrao c xs st = Inr st')"
proof (induction xs arbitrary: st)
  case Nil
  then show ?case by simp
next
  case (Cons b xs)
  then have b: "b \<in> set (ids inst)" and r: "set xs \<subseteq> set (ids inst)" by simp_all
  from vpl_step_padrao_cases[OF assms b, of c st]
  show ?case
  proof
    assume "vpl_step inst taxa_padrao c st b = Inl OverflowError"
    then show ?thesis by simp
  next
    assume "\<exists>st'. vpl_step inst taxa_padrao c st b = Inr st'"
    then obtain st1 where s: "vpl_step inst taxa_padrao c st b = Inr st1" by blast
    from Cons.IH[OF r, of st1] s show ?thesis by simp
  qed
qed

lemma calcular_vpl_padrao_ok:
  assumes "inst_ok inst" and "set xs \<subseteq> set (ids inst)" and "length xs \<le> 5078"
  shows "\<exists>v. calcular_vpl inst xs taxa_padrao c = Inr v"
proof -
  have "ano vpl_init + length xs \<le> 5079" using assms(3) by (simp add: vpl_init_def)
  from vpl_loop_padrao_ok[OF assms(1,2) this, of c] show ?thesis
    by (auto simp: calcular_vpl_def)
qed

lemma calcular_vpl_padrao_cases:
  assumes "inst_ok inst" and "set xs \<subseteq> set (ids inst)"
  shows "calcular_vpl inst xs taxa_padrao c = Inl OverflowError
         \<or> (\<exists>v. calcular_vpl inst xs taxa_padrao c = Inr v)"
  using vpl_loop_padrao_cases[OF assms, of c vpl_init] by (auto simp: calcular_vpl_def)

text \<open>The order built by the baseline, on every loaded model and for every random source.\<close>

lemma baseline_ordem_result:
  assumes ok: "inst_ok inst"
  shows "\<exists>ordem. baseline_ordem inst g = Inr ordem
      \<and> distinct ordem \<and> set ordem \<subseteq> set (ids inst)
      \<and> verificar_loop inst ordem {} = Inr True
      \<and> (length (ids inst) \<le> length ordem
         \<or> (\<forall>b \<in> set (ids inst) - set ordem. \<not> set (preds_of inst b) \<subseteq> set ordem))"
proof -
  have "\<forall>b \<in> set (ids inst). preds_dict inst b \<noteq> None"
    using inst_ok_preds[OF ok] by fastforce
  from init_preds_restantes_ok[OF this, of Map.empty] obtain pr where
    ipr: "init_preds_restantes inst (ids inst) Map.empty = Inr pr"
    and prv: "\<forall>c. pr c = (if c \<in> set (ids inst) then Some (set (preds_of inst c)) else None)"
    by blast
  have "baseline_inv inst {} [] pr" using prv by (simp add: baseline_inv_def)
  from baseline_loop_inv[OF ok this, of g] obtain ordem where
    bl: "baseline_loop inst {} [] pr g = Inr ordem"
    and props: "distinct ordem" "set ordem \<subseteq> set (ids inst)"
      "verificar_loop inst ordem {} = Inr True"
      "length (ids inst) \<le> length ordem
         \<or> (\<forall>b \<in> set (ids inst) - set ordem. \<not> set (preds_of inst b) \<subseteq> set ordem)"
    by blast
  from ipr bl have "baseline_ordem inst g = Inr ordem" by (simp add: baseline_ordem_def)
  with props show ?thesis by blast
qed

lemma ordem_length:
  assumes "distinct ordem" and "set ordem \<subseteq> set (ids inst)"
  shows "length ordem \<le> length (ids inst)"
proof -
  have "length ordem = card (set ordem)" using assms(1) by (simp add: distinct_card)
  also have "\<dots> \<le> card (set (ids inst))" using assms(2) by (simp add: card_mono)
  also have "\<dots> \<le> length (ids inst)" by (rule card_length)
  finally show ?thesis .
qed

text \<open>
  What \<open>baseline_toposort\<close> does with the order: it returns it with its value, unless the
  evaluation overflows; with at most 5078 blocks it returns.
\<close>

lemma baseline_toposort_cases:
  assumes ok: "inst_ok inst" and o: "baseline_ordem inst g = Inr ordem"
    and dis: "distinct ordem" and sub: "set ordem \<subseteq> set (ids inst)"
  shows "(\<exists>v. baseline_toposort inst g = Inr (ordem, v))
         \<or> baseline_toposort inst g = Inl OverflowError"
    and "length (ids inst) \<le> 5078 \<Longrightarrow> \<exists>v. baseline_toposort inst g = Inr (ordem, v)"
proof -
  from calcular_vpl_padrao_cases[OF ok sub, of capacidade_padrao] o
  show "(\<exists>v. baseline_toposort inst g = Inr (ordem, v))
         \<or> baseline_toposort inst g = Inl OverflowError"
    by (auto simp: baseline_toposort_def)
  assume "length (ids inst) \<le> 5078"
  with ordem_length[OF dis sub] have "length ordem \<le> 5078" by simp
  from calcular_vpl_padrao_ok[OF ok sub this, of capacidade_padrao] o
  show "\<exists>v. baseline_toposort inst g = Inr (ordem, v)"
    by (auto simp: baseline_toposort_def)
qed

lemma prec_rel_finite:
  assumes "inst_ok inst"
  shows "finite (prec_rel inst)"
proof -
  have "prec_rel inst \<subseteq> set (ids inst) \<times> set (ids inst)"
    using preds_of_ids(2)[OF assms] by (auto simp: prec_rel_def)
  then show ?thesis by (rule finite_subset) simp
qed

text \<open>On an acyclic model the order is complete: a missing block of minimal rank is free.\<close>

lemma baseline_ordem_completa:
  assumes ok: "inst_ok inst" and acyc: "acyclic (prec_rel inst)"
  shows "\<exists>ordem. baseline_ordem inst g = Inr ordem
           \<and> permutacao inst ordem
           \<and> verificar_loop inst ordem {} = Inr True"
proof -
  from baseline_ordem_result[OF ok, of g] obtain ordem where
    r: "baseline_ordem inst g = Inr ordem"
    and dis: "distinct ordem" and sub: "set ordem \<subseteq> set (ids inst)"
    and feas: "verificar_loop inst ordem {} = Inr True"
    and stop: "length (ids inst) \<le> length ordem
         \<or> (\<forall>b \<in> set (ids inst) - set ordem. \<not> set (preds_of inst b) \<subseteq> set ordem)"
    by blast
  have "set ordem = set (ids inst)"
  proof (rule ccontr)
    assume ne: "set ordem \<noteq> set (ids inst)"
    with sub have strict: "set ordem \<subset> set (ids inst)" by blast
    then have "card (set ordem) < card (set (ids inst))"
      by (simp add: psubset_card_mono)
    with dis have "length ordem < length (ids inst)"
      using card_length[of "ids inst"] distinct_card[of ordem] by linarith
    with stop have nofree:
      "\<forall>b \<in> set (ids inst) - set ordem. \<not> set (preds_of inst b) \<subseteq> set ordem" by simp
    from strict obtain x where x: "x \<in> set (ids inst) - set ordem" by blast
    have "wf (prec_rel inst)"
      using finite_acyclic_wf[OF prec_rel_finite[OF ok] acyc] .
    from wfE_min[OF this x] obtain z where z: "z \<in> set (ids inst) - set ordem"
      and zmin: "\<And>y. (y, z) \<in> prec_rel inst \<Longrightarrow> y \<notin> set (ids inst) - set ordem" by blast
    have "set (preds_of inst z) \<subseteq> set ordem"
    proof
      fix p assume p: "p \<in> set (preds_of inst z)"
      with z have "(p, z) \<in> prec_rel inst" by (simp add: prec_rel_def)
      from zmin[OF this] have "p \<notin> set (ids inst) - set ordem" .
      moreover from p z preds_of_ids(2)[OF ok, of z] have "p \<in> set (ids inst)" by auto
      ultimately show "p \<in> set ordem" by simp
    qed
    with nofree z show False by blast
  qed
  with dis have "permutacao inst ordem" by (simp add: permutacao_def)
  with r feas show ?thesis by blast
qed

lemma inst_ok_ciclo3: "inst_ok ciclo3"
  by (simp add: inst_ok_def ciclo3_def preds_of_def)

lemma inst_ok_exemplo4: "inst_ok (exemplo4 v)"
  by (auto simp add: inst_ok_def exemplo4_def preds_of_def)

lemma acyclic_exemplo4: "acyclic (prec_rel (exemplo4 v))"
proof (rule acyclicI_order[where f = uminus])
  fix a b :: int
  assume "(a, b) \<in> prec_rel (exemplo4 v)"
  then show "- b < - a"
    by (auto simp: prec_rel_def exemplo4_def preds_of_def split: if_splits)
qed

text \<open>
  Claim C10. On every loaded model, cyclic or not, the order that \<open>baseline_toposort\<close>
  builds passes \<open>verificar_factibilidade\<close>: a block is eligible only when its
  remaining-predecessor set is empty, that is, when all its predecessors are placed. The
  order has no repetition and holds ids of the model only. \<open>baseline_toposort\<close> returns
  this order with its value, or raises \<open>OverflowError\<close> while evaluating it and returns
  nothing; with at most 5078 blocks it returns.
\<close>

theorem baseline_feasible:
  assumes "inst_ok inst"
  shows "\<exists>ordem. baseline_ordem inst g = Inr ordem
           \<and> verificar_factibilidade inst ordem = Inr True
           \<and> distinct ordem \<and> set ordem \<subseteq> set (ids inst)
           \<and> ((\<exists>v. baseline_toposort inst g = Inr (ordem, v))
              \<or> baseline_toposort inst g = Inl OverflowError)
           \<and> (length (ids inst) \<le> 5078 \<longrightarrow>
                (\<exists>v. baseline_toposort inst g = Inr (ordem, v)))"
proof -
  from baseline_ordem_result[OF assms, of g] obtain ordem where
    o: "baseline_ordem inst g = Inr ordem"
    and dis: "distinct ordem" and sub: "set ordem \<subseteq> set (ids inst)"
    and feas: "verificar_loop inst ordem {} = Inr True"
    by blast
  from baseline_toposort_cases[OF assms o dis sub] o dis sub feas
  show ?thesis by (auto simp: verificar_factibilidade_def)
qed

text \<open>
  The model with a cycle between 1 and 2: the baseline returns, with a feasible sequence;
  it is \<open>[0]\<close>, a strict subset of the ids.
\<close>

theorem baseline_feasible_witness:
  "inst_ok ciclo3 \<and> length (ids ciclo3) \<le> 5078
   \<and> (\<exists>ordem. baseline_ordem ciclo3 rng_zero = Inr ordem
           \<and> verificar_factibilidade ciclo3 ordem = Inr True
           \<and> distinct ordem \<and> set ordem \<subseteq> set (ids ciclo3)
           \<and> (\<exists>v. baseline_toposort ciclo3 rng_zero = Inr (ordem, v)))"
proof -
  have "length (ids ciclo3) \<le> 5078" by (simp add: ciclo3_def)
  with baseline_feasible[OF inst_ok_ciclo3, of rng_zero] inst_ok_ciclo3
  show ?thesis by auto
qed

lemma baseline_ciclo3_value: "baseline_toposort ciclo3 rng_zero = Inr ([0], Fin (- 2.5))"
proof -
  have i: "init_preds_restantes ciclo3 (ids ciclo3) Map.empty
           = Inr (Map.empty(0 \<mapsto> {}, 1 \<mapsto> {2}, 2 \<mapsto> {1}))"
    by (simp add: ciclo3_def)
  have l: "baseline_loop ciclo3 {} [] (Map.empty(0 \<mapsto> {}, 1 \<mapsto> {2}, 2 \<mapsto> {1})) rng_zero = Inr [0]"
    apply (subst baseline_loop.simps)
    apply (simp add: ciclo3_def dict_keys_def random_choice_def randbelow_def rng_zero_def Let_def)
    apply (subst baseline_loop.simps)
    apply (simp add: ciclo3_def dict_keys_def random_choice_def randbelow_def rng_zero_def Let_def)
    done
  have v: "calcular_vpl ciclo3 [0] taxa_padrao capacidade_padrao = Inr (Fin (- 2.5))"
    by (simp add: calcular_vpl_def vpl_step_def ciclo3_def vpl_init_def Let_def
        valor_descontado_def float_pow_def float_truediv_def capacidade_padrao_def
        floats_exemplo)
  show ?thesis using v by (simp add: baseline_toposort_def baseline_ordem_def i l)
qed

text \<open>
  The model of 5079 heavy blocks: every block exceeds the capacity alone, so each one opens
  a new period, and the discount factor of the last one, \<open>(1 + 0.15) ** 5079\<close>, is out of
  the float range.
\<close>

lemma inst_ok_pesados: "inst_ok (pesados n)"
  by (auto simp: inst_ok_def pesados_def preds_of_def list_all_iff)

lemma acyclic_pesados: "acyclic (prec_rel (pesados n))"
proof -
  have "prec_rel (pesados n) = {}"
    by (auto simp: prec_rel_def pesados_def preds_of_def)
  then show ?thesis by (simp add: acyclic_def)
qed

lemma floats_pesados:
  "py_float (- 15000000) = Fin (- 15000000)"
  "py_float 15000000 = Fin 15000000"
  "py_float 20000000 = Fin 20000000"
  "py_float 40000000 = Fin 40000000"
proof -
  show "py_float (- 15000000) = Fin (- 15000000)"
    by (rule py_float_negI[where k = 29]) (simp_all add: e_min_def round_half_even_def Let_def)
  show "py_float 15000000 = Fin 15000000"
    by (rule py_float_posI[where k = 29]) (simp_all add: e_min_def round_half_even_def Let_def)
  show "py_float 20000000 = Fin 20000000"
    by (rule py_float_posI[where k = 28]) (simp_all add: e_min_def round_half_even_def Let_def)
  show "py_float 40000000 = Fin 40000000"
    by (rule py_float_posI[where k = 27]) (simp_all add: e_min_def round_half_even_def Let_def)
qed

lemma vpl_step_pesados:
  assumes "b \<in> set (ids (pesados n))"
    and "ton_acumulada st = Fin 0 \<or> ton_acumulada st = Fin 20000000"
  shows "vpl_step (pesados n) taxa_padrao capacidade_padrao st b =
     (case valor_descontado (Fin 15000000) taxa_padrao (ano st + 1) of
        Inl e \<Rightarrow> Inl e
      | Inr q \<Rightarrow>
          Inr \<lparr>ano = ano st + 1, ton_acumulada = Fin 20000000,
               valor_total = float_add (valor_total st) q,
               visitados = insert b (visitados st)\<rparr>)"
proof -
  from assms(1) have r: "0 \<le> b \<and> b < int n" by (auto simp: pesados_def)
  then have d: "preds_dict (pesados n) b = Some []" "dest_dict (pesados n) b = Some 1"
    "tonn_dict (pesados n) b = Some (Fin 20000000)"
    "val_ore_dict (pesados n) b = Some (Fin 30000000)"
    by (simp_all add: pesados_def)
  from assms(2) have g: "float_gt (float_add (ton_acumulada st) (Fin 20000000)) capacidade_padrao"
    by (auto simp: floats_pesados capacidade_padrao_def)
  have "set [] \<subseteq> visitados st" by simp
  from vpl_step_ore[OF d(1) this d(2,3,4), of taxa_padrao capacidade_padrao] g
  show ?thesis by (simp add: floats_pesados split: sum.splits)
qed

lemma vpl_loop_pesados:
  "set xs \<subseteq> set (ids (pesados n)) \<Longrightarrow>
   ton_acumulada st = Fin 0 \<or> ton_acumulada st = Fin 20000000 \<Longrightarrow>
   ano st \<le> 5079 \<Longrightarrow> 5080 \<le> ano st + length xs \<Longrightarrow>
   vpl_loop (pesados n) taxa_padrao capacidade_padrao xs st = Inl OverflowError"
proof (induction xs arbitrary: st)
  case Nil
  then show ?case by simp
next
  case (Cons b xs)
  then have b: "b \<in> set (ids (pesados n))" and r: "set xs \<subseteq> set (ids (pesados n))"
    by simp_all
  note s = vpl_step_pesados[OF b Cons.prems(2)]
  show ?case
  proof (cases "ano st = 5079")
    case True
    then have "5080 \<le> ano st + 1" by simp
    from valor_descontado_padrao_overflow[OF this] s show ?thesis by simp
  next
    case False
    with Cons.prems(3) have a: "ano st + 1 \<le> 5079" by simp
    from valor_descontado_padrao_ok[OF this] obtain q where
      q: "valor_descontado (Fin 15000000) taxa_padrao (ano st + 1) = Inr q" by blast
    define st1 where "st1 = \<lparr>ano = ano st + 1, ton_acumulada = Fin 20000000,
               valor_total = float_add (valor_total st) q,
               visitados = insert b (visitados st)\<rparr>"
    from s q have s1: "vpl_step (pesados n) taxa_padrao capacidade_padrao st b = Inr st1"
      by (simp add: st1_def)
    have "ton_acumulada st1 = Fin 0 \<or> ton_acumulada st1 = Fin 20000000"
      and "ano st1 \<le> 5079" and "5080 \<le> ano st1 + length xs"
      using a Cons.prems(4) by (simp_all add: st1_def)
    from Cons.IH[OF r this] s1 show ?thesis by simp
  qed
qed

lemma baseline_pesados:
  "baseline_toposort (pesados 5079) g = Inl OverflowError"
proof -
  from baseline_ordem_completa[OF inst_ok_pesados acyclic_pesados, of 5079 g] obtain ordem where
    o: "baseline_ordem (pesados 5079) g = Inr ordem"
    and p: "permutacao (pesados 5079) ordem" by blast
  have dis: "distinct (ids (pesados 5079))"
    by (simp add: pesados_def distinct_map inj_on_def)
  from p have "length ordem = card (set (ids (pesados 5079)))"
    by (simp add: permutacao_def distinct_card[symmetric])
  also have "\<dots> = length (ids (pesados 5079))" using dis by (rule distinct_card)
  also have "\<dots> = 5079" by (simp add: pesados_def)
  finally have len: "length ordem = 5079" .
  have "vpl_loop (pesados 5079) taxa_padrao capacidade_padrao ordem vpl_init
        = Inl OverflowError"
  proof (rule vpl_loop_pesados)
    show "set ordem \<subseteq> set (ids (pesados 5079))" using p by (simp add: permutacao_def)
    show "ton_acumulada vpl_init = Fin 0 \<or> ton_acumulada vpl_init = Fin 20000000"
      by (simp add: vpl_init_def)
    show "ano vpl_init \<le> 5079" by (simp add: vpl_init_def)
    show "5080 \<le> ano vpl_init + length ordem" by (simp add: vpl_init_def len)
  qed
  with o show ?thesis by (simp add: baseline_toposort_def calcular_vpl_def)
qed

text \<open>
  The claim as stated fails on the 5079 heavy blocks: the model is loaded and acyclic, and
  \<open>baseline_toposort\<close> raises instead of returning a sequence.
\<close>

theorem baseline_complete_counterexample:
  "inst_ok (pesados 5079) \<and> acyclic (prec_rel (pesados 5079))
   \<and> baseline_toposort (pesados 5079) rng_zero = Inl OverflowError"
  using inst_ok_pesados acyclic_pesados baseline_pesados by blast

text \<open>
  Claim C8, amended. On a loaded model (all predecessor references within the id set)
  whose precedence graph is acyclic, the order that \<open>baseline_toposort\<close> builds holds
  every id exactly once and passes the feasibility check, whatever the random draws.
  \<open>baseline_toposort\<close> returns it with its value, or raises \<open>OverflowError\<close> while
  evaluating it; with at most 5078 blocks it returns.
\<close>

theorem baseline_complete:
  assumes "inst_ok inst" and "acyclic (prec_rel inst)"
  shows "\<exists>ordem. baseline_ordem inst g = Inr ordem
           \<and> permutacao inst ordem
           \<and> verificar_factibilidade inst ordem = Inr True
           \<and> ((\<exists>v. baseline_toposort inst g = Inr (ordem, v))
              \<or> baseline_toposort inst g = Inl OverflowError)
           \<and> (length (ids inst) \<le> 5078 \<longrightarrow>
                (\<exists>v. baseline_toposort inst g = Inr (ordem, v)))"
proof -
  from baseline_ordem_completa[OF assms, of g] obtain ordem where
    o: "baseline_ordem inst g = Inr ordem"
    and p: "permutacao inst ordem"
    and feas: "verificar_loop inst ordem {} = Inr True"
    by blast
  from p have dis: "distinct ordem" and sub: "set ordem \<subseteq> set (ids inst)"
    by (simp_all add: permutacao_def)
  from baseline_toposort_cases[OF assms(1) o dis sub] o p feas
  show ?thesis by (auto simp: verificar_factibilidade_def)
qed

text \<open>The four-block example is acyclic; the draws 0, 1, 2, ... give a complete order.\<close>

theorem baseline_complete_witness:
  "inst_ok (exemplo4 (Fin 0)) \<and> acyclic (prec_rel (exemplo4 (Fin 0)))
   \<and> length (ids (exemplo4 (Fin 0))) \<le> 5078
   \<and> (\<exists>ordem. baseline_ordem (exemplo4 (Fin 0)) rng_count = Inr ordem
           \<and> permutacao (exemplo4 (Fin 0)) ordem
           \<and> verificar_factibilidade (exemplo4 (Fin 0)) ordem = Inr True
           \<and> (\<exists>v. baseline_toposort (exemplo4 (Fin 0)) rng_count = Inr (ordem, v)))"
proof -
  have "length (ids (exemplo4 (Fin 0))) \<le> 5078" by (simp add: exemplo4_def)
  with baseline_complete[OF inst_ok_exemplo4 acyclic_exemplo4, of "Fin 0" rng_count]
    inst_ok_exemplo4[of "Fin 0"] acyclic_exemplo4[of "Fin 0"]
  show ?thesis by auto
qed

section \<open>Properties of the genetic operators\<close>





































section \<open>Properties of loading\<close>

lemma dict_zip_defined:
  assumes "length vs = length ks" and "k \<in> set ks"
  shows "dict_zip ks vs k \<noteq> None"
proof -
  have "fst ` set (rev (zip ks vs)) = set (map fst (zip ks vs))" by simp
  also have "\<dots> = set ks" using assms(1) by (simp only: map_fst_zip)
  finally show ?thesis using assms(2)
    by (simp add: dict_zip_def map_of_eq_None_iff)
qed

lemma build_preds_dom:
  "build_preds ev rows m = Inr m' \<Longrightarrow> dom m' = dom m \<union> fst ` set rows"
proof (induction rows arbitrary: m)
  case Nil
  then show ?case by simp
next
  case (Cons r rows)
  obtain i c where r: "r = (i, c)" by (cases r)
  from Cons.prems r obtain ps where
    "build_preds ev rows (m(i \<mapsto> ps)) = Inr m'"
    by (auto split: sum.splits)
  from Cons.IH[OF this] r show ?case by auto
qed

lemma append_succs_spec:
  "append_succs b ps S = Inr S' \<Longrightarrow>
   set ps \<subseteq> dom S \<and> dom S' = dom S
   \<and> (\<forall>q. succ_set S' q = succ_set S q \<union> (if q \<in> set ps then {b} else {}))"
proof (induction ps arbitrary: S)
  case Nil
  then show ?case by simp
next
  case (Cons p ps)
  from Cons.prems obtain l where l: "S p = Some l"
    and r: "append_succs b ps (S(p \<mapsto> l @ [b])) = Inr S'"
    by (auto split: option.splits)
  from Cons.IH[OF r] have sub: "set ps \<subseteq> dom (S(p \<mapsto> l @ [b]))"
    and d: "dom S' = dom (S(p \<mapsto> l @ [b]))"
    and s: "\<And>q. succ_set S' q = succ_set (S(p \<mapsto> l @ [b])) q \<union> (if q \<in> set ps then {b} else {})"
    by blast+
  from l have dd: "dom (S(p \<mapsto> l @ [b])) = dom S" by auto
  have "succ_set S' q = succ_set S q \<union> (if q \<in> set (p # ps) then {b} else {})" for q
    using s[of q] l by (auto simp: succ_set_def)
  with sub d dd l show ?case by auto
qed

lemma succs_loop_spec:
  "succs_loop items S = Inr S' \<Longrightarrow>
   (\<forall>(b, ps) \<in> set items. set ps \<subseteq> dom S) \<and> dom S' = dom S
   \<and> (\<forall>q. succ_set S' q = succ_set S q \<union> {b. \<exists>ps. (b, ps) \<in> set items \<and> q \<in> set ps})"
proof (induction items arbitrary: S)
  case Nil
  then show ?case by simp
next
  case (Cons it items)
  obtain b ps where it: "it = (b, ps)" by (cases it)
  from Cons.prems it obtain S1 where a: "append_succs b ps S = Inr S1"
    and r: "succs_loop items S1 = Inr S'"
    by (auto split: sum.splits)
  from append_succs_spec[OF a] have a1: "set ps \<subseteq> dom S" and a2: "dom S1 = dom S"
    and a3: "\<And>q. succ_set S1 q = succ_set S q \<union> (if q \<in> set ps then {b} else {})"
    by blast+
  from Cons.IH[OF r] have r1: "\<forall>(b, ps) \<in> set items. set ps \<subseteq> dom S1"
    and r2: "dom S' = dom S1"
    and r3: "\<And>q. succ_set S' q = succ_set S1 q \<union> {b. \<exists>ps. (b, ps) \<in> set items \<and> q \<in> set ps}"
    by blast+
  have "succ_set S' q = succ_set S q \<union> {b. \<exists>ps. (b, ps) \<in> set (it # items) \<and> q \<in> set ps}"
    for q
    using r3[of q] a3[of q] it by auto
  moreover have "\<forall>(b, ps) \<in> set (it # items). set ps \<subseteq> dom S"
    using r1 a1 a2 it by auto
  ultimately show ?case using r2 a2 by blast
qed

lemma set_dict_items:
  "set (dict_items ks m) = {(k, v). k \<in> set ks \<and> m k = Some v}"
  by (auto simp: dict_items_def dict_keys_def split: option.splits)

lemma dom_succs_init: "dom (map_of (map (\<lambda>b. (b, [])) xs)) = set xs"
  by (simp add: dom_map_of_conv_image_fst image_image)

lemma succ_set_init: "succ_set (map_of (map (\<lambda>b. (b, [])) xs)) q = {}"
  by (auto simp: succ_set_def split: option.splits dest!: map_of_SomeD)

text \<open>
  A load that returns gives a model that satisfies \<open>inst_ok\<close>: this is the sense in which
  the results above are about loaded models.
\<close>

lemma MineLibCPIT_inst_ok:
  assumes load: "MineLibCPIT ev df = Inr (inst, df')" and rect: "retangular df"
  shows "inst_ok inst"
proof -
  from load have prep: "preparar_dados ev df = Inr (inst, df')"
    by (auto simp: MineLibCPIT_def split: sum.splits)
  from prep obtain idc tc dc vc pc where
    cols: "col_id df = Some idc" "col_tonn df = Some tc" "col_dest df = Some dc"
      "col_val_ore df = Some vc" "col_precedentes df = Some pc"
    by (auto simp: preparar_dados_def getitem_def split: option.splits)
  from rect cols have len: "length tc = length idc" "length dc = length idc"
    "length vc = length idc" "length pc = length idc"
    by (simp_all add: retangular_def col_len_ok_def Let_def)
  then have rows: "map fst (zip idc pc) = idc" by simp
  from prep cols rows obtain preds succs where
    bp: "build_preds ev (zip idc pc) Map.empty = Inr preds"
    and cs: "calcular_sucessores idc idc preds = Inr succs"
    and inst: "inst = \<lparr>ids = idc, tonn_dict = dict_zip idc tc, dest_dict = dict_zip idc dc,
                      val_ore_dict = dict_zip idc vc, preds_dict = preds, succs_dict = succs\<rparr>"
    by (auto simp: preparar_dados_def getitem_def split: sum.splits option.splits)
  from build_preds_dom[OF bp] have "dom preds = fst ` set (zip idc pc)" by simp
  also have "\<dots> = set (map fst (zip idc pc))" by simp
  finally have domp: "dom preds = set idc" using rows by simp
  from cs have sl: "succs_loop (dict_items idc preds) (map_of (map (\<lambda>b. (b, [])) idc)) = Inr succs"
    by (simp add: calcular_sucessores_def)
  from succs_loop_spec[OF sl]
  have sub: "\<And>b ps. (b, ps) \<in> set (dict_items idc preds) \<Longrightarrow> set ps \<subseteq> set idc"
    and doms: "dom succs = set idc"
    and sset: "\<And>q. succ_set succs q =
                 {b. \<exists>ps. (b, ps) \<in> set (dict_items idc preds) \<and> q \<in> set ps}"
    by (auto simp: dom_succs_init succ_set_init)
  have "case preds_dict inst b of None \<Rightarrow> False
        | Some ps \<Rightarrow> list_all (\<lambda>p. p \<in> set (ids inst)) ps" if bi: "b \<in> set (ids inst)" for b
  proof -
    from bi have b: "b \<in> set idc" by (simp add: inst)
    from b domp obtain ps where ps: "preds b = Some ps" by auto
    with b have "(b, ps) \<in> set (dict_items idc preds)" by (simp add: set_dict_items)
    from sub[OF this] ps show ?thesis by (auto simp: inst list_all_iff)
  qed
  moreover have "case succs_dict inst b of None \<Rightarrow> False
        | Some ss \<Rightarrow> set ss = set (filter (\<lambda>c. b \<in> set (preds_of inst c)) (ids inst))"
    if bi: "b \<in> set (ids inst)" for b
  proof -
    from bi have b: "b \<in> set idc" by (simp add: inst)
    from b doms obtain ss where ss: "succs b = Some ss" by auto
    then have "set ss = succ_set succs b" by (simp add: succ_set_def)
    also have "\<dots> = {c. \<exists>ps. c \<in> set idc \<and> preds c = Some ps \<and> b \<in> set ps}"
      by (auto simp: sset set_dict_items)
    also have "\<dots> = set (filter (\<lambda>c. b \<in> set (preds_of inst c)) (ids inst))"
    proof (intro set_eqI iffI)
      fix c assume "c \<in> {c. \<exists>ps. c \<in> set idc \<and> preds c = Some ps \<and> b \<in> set ps}"
      then show "c \<in> set (filter (\<lambda>c. b \<in> set (preds_of inst c)) (ids inst))"
        by (auto simp: inst preds_of_def)
    next
      fix c assume "c \<in> set (filter (\<lambda>c. b \<in> set (preds_of inst c)) (ids inst))"
      then have c: "c \<in> set idc" and m: "b \<in> set (preds_of inst c)" by (simp_all add: inst)
      from c domp obtain ps where ps: "preds c = Some ps" by auto
      with m have "b \<in> set ps" by (simp add: inst preds_of_def)
      with c ps show "c \<in> {c. \<exists>ps. c \<in> set idc \<and> preds c = Some ps \<and> b \<in> set ps}"
        by simp
    qed
    finally show ?thesis using ss by (simp add: inst)
  qed
  moreover have "tonn_dict inst b \<noteq> None \<and> dest_dict inst b \<noteq> None \<and> val_ore_dict inst b \<noteq> None"
    if bi: "b \<in> set (ids inst)" for b
  proof -
    from bi have b: "b \<in> set idc" by (simp add: inst)
    from dict_zip_defined[OF len(1) b] dict_zip_defined[OF len(2) b]
      dict_zip_defined[OF len(3) b] show ?thesis by (simp add: inst)
  qed
  ultimately show ?thesis
    unfolding inst_ok_def list_all_iff by blast
qed

text \<open>
  Claim C3. The schema check fails exactly when one of \<open>id\<close>, \<open>x\<close>, \<open>y\<close>, \<open>z\<close>,
  \<open>precedentes\<close> is absent. But a table that passes it and lacks \<open>tonn\<close>, \<open>val_ore\<close> or
  \<open>dest\<close> does not load: \<open>_preparar_dados\<close> reads the three columns before its fallback
  assignments, and the read raises \<open>KeyError\<close>. The complete table loads.
\<close>

theorem load_without_optional_columns:
  "(validar_colunas df = Inl ValueError \<longleftrightarrow>
      col_id df = None \<or> col_x df = None \<or> col_y df = None \<or> col_z df = None
      \<or> col_precedentes df = None)
   \<and> validar_colunas (df_completo\<lparr>col_tonn := None, col_val_ore := None, col_dest := None\<rparr>)
       = Inr ()
   \<and> MineLibCPIT ev (df_completo\<lparr>col_tonn := None, col_val_ore := None, col_dest := None\<rparr>)
       = Inl KeyError
   \<and> MineLibCPIT ev (df_completo\<lparr>col_tonn := None\<rparr>) = Inl KeyError
   \<and> MineLibCPIT ev (df_completo\<lparr>col_val_ore := None\<rparr>) = Inl KeyError
   \<and> MineLibCPIT ev (df_completo\<lparr>col_dest := None\<rparr>) = Inl KeyError
   \<and> (\<exists>inst df'. MineLibCPIT ev df_completo = Inr (inst, df'))"
proof -
  have a: "validar_colunas df = Inl ValueError \<longleftrightarrow>
      col_id df = None \<or> col_x df = None \<or> col_y df = None \<or> col_z df = None
      \<or> col_precedentes df = None"
    by (auto simp: validar_colunas_def columns_def Let_def split: if_splits)
  have b: "validar_colunas (df_completo\<lparr>col_tonn := None, col_val_ore := None, col_dest := None\<rparr>)
       = Inr ()
   \<and> MineLibCPIT ev (df_completo\<lparr>col_tonn := None, col_val_ore := None, col_dest := None\<rparr>)
       = Inl KeyError
   \<and> MineLibCPIT ev (df_completo\<lparr>col_tonn := None\<rparr>) = Inl KeyError
   \<and> MineLibCPIT ev (df_completo\<lparr>col_val_ore := None\<rparr>) = Inl KeyError
   \<and> MineLibCPIT ev (df_completo\<lparr>col_dest := None\<rparr>) = Inl KeyError"
    by (simp add: MineLibCPIT_def validar_colunas_def columns_def df_completo_def Let_def
        preparar_dados_def getitem_def)
  have c: "\<exists>inst df'. MineLibCPIT ev df_completo = Inr (inst, df')"
    by (simp add: MineLibCPIT_def validar_colunas_def columns_def df_completo_def Let_def
        preparar_dados_def getitem_def calcular_sucessores_def dict_items_def dict_keys_def)
  from a b c show ?thesis by blast
qed


end
